theory Spec2Isabelle
  imports Main "HOL-Library.Word"
begin

unbundle bit_operations_syntax

section \<open>The delivery benchmark of \<open>testutils/bench_delivery.go\<close>\<close>

text \<open>
  The file fabricates one synthetic message (\<open>RandomMsg\<close>) and drives a delivery
  target through five timed phases (\<open>BenchDelivery\<close>). Go strings are byte sequences,
  so they are \<^typ>\<open>string\<close> here; the loop counters start at 0 and stay below
  \<open>b.N\<close>, so they are \<^typ>\<open>nat\<close>.
\<close>

subsection \<open>Constants and the header preamble\<close>

definition MessageBodySize :: nat where
  "MessageBodySize = 100 * 1024"

definition ExtraMessageHeaderFields :: nat where
  "ExtraMessageHeaderFields = 20"

definition ExtraMessageHeaderFieldSize :: nat where
  "ExtraMessageHeaderFieldSize = 100"

text \<open>The entries of the map literal \<open>headerPreamble\<close>, in the order of the source text.\<close>

definition headerPreamble_literal :: "(string \<times> string) list" where
  \<open>headerPreamble_literal =
    [(''From'', ''"whatever whatever" <whatever@example.org>''),
     (''Message-ID'', ''<AAAAAAAAAAAAAAAAAA@example.org>''),
     (''To'', ''"whatever whatever" <whatever@example.org>, "fool" <fool@example.org>''),
     (''Date'', ''Tue, 08 Oct 2019 06:25:41 +0000''),
     (''Subject'', ''Heya Heya Heya Heya''),
     (''Content-Type'', ''text/plain; charset=us-ascii''),
     (''MIME-Version'', ''1.0''),
     (''Content-Transfer-Encoding'', ''8bit''),
     (''Received'', ''from whatever ([127.0.0.1]) by whatever ([127.0.0.1]) with whatever id whatever for whatever@example.org'')]\<close>

text \<open>The Go value is a \<open>map[string]string\<close>: a finite map without any order.\<close>

definition headerPreamble :: "string \<rightharpoonup> string" where
  "headerPreamble = map_of headerPreamble_literal"

text \<open>
  A \<open>for k, v := range m\<close> loop visits every entry of the map exactly once, in an order
  the language leaves open and that may differ from one loop to the next. The order a
  particular loop takes is an explicit argument of the model: a list \<open>ord\<close> of entries
  with \<open>range_order m ord\<close>.
\<close>

definition range_order :: "('k \<rightharpoonup> 'v) \<Rightarrow> ('k \<times> 'v) list \<Rightarrow> bool" where
  "range_order m ord \<longleftrightarrow> distinct (map fst ord) \<and> map_of ord = m"

subsection \<open>Library functions the file calls\<close>

text \<open>\<open>strconv.Itoa\<close> on a non-negative integer: its decimal digits, most significant first.\<close>

definition digit :: "nat \<Rightarrow> char" where
  "digit d = ''0123456789'' ! d"

fun Itoa :: "nat \<Rightarrow> string" where
  "Itoa n = (if n < 10 then [digit n] else Itoa (n div 10) @ [digit (n mod 10)])"

declare Itoa.simps [simp del]

text \<open>\<open>strings.Repeat\<close> and \<open>bytes.Repeat\<close>: \<open>count\<close> copies of \<open>s\<close>.\<close>

definition Repeat :: "string \<Rightarrow> nat \<Rightarrow> string" where
  "Repeat s count = concat (replicate count s)"

text \<open>
  \<open>strings.Replace(s, old, new, -1)\<close> for a pattern \<open>old\<close> of one byte, which is the only
  way the file calls it (\<open>old = "X"\<close>): every occurrence of the byte is replaced.
\<close>

fun Replace :: "string \<Rightarrow> char \<Rightarrow> string \<Rightarrow> string" where
  "Replace [] old new = []"
| "Replace (c # s) old new = (if c = old then new else [c]) @ Replace s old new"

text \<open>\<open>hex.EncodeToString\<close>: two lower-case digits for each byte, high nibble first.\<close>

definition hextable :: string where
  "hextable = ''0123456789abcdef''"

fun EncodeToString :: "8 word list \<Rightarrow> string" where
  "EncodeToString [] = []"
| "EncodeToString (v # src) =
     hextable ! unat (drop_bit 4 v) # hextable ! unat (v AND 0x0f) # EncodeToString src"

text \<open>
  \<open>hex.DecodeString\<close> of the same package, with its helper \<open>fromHexChar\<close>: the value of a
  hexadecimal digit of either case, and the bytes \<open>(a << 4) | b\<close> of the pairs of digits;
  an odd length and a character that is no digit are errors. \<open>RandomMsg\<close> does not call it:
  it is the reading of an encoded string against which the \<open>ID\<close> is stated.
\<close>

definition fromHexChar :: "char \<Rightarrow> 8 word option" where
  "fromHexChar c =
    (let n = (of_char c :: nat) in
     if of_char CHR ''0'' \<le> n \<and> n \<le> of_char CHR ''9'' then Some (of_nat (n - of_char CHR ''0''))
     else if of_char CHR ''a'' \<le> n \<and> n \<le> of_char CHR ''f''
       then Some (of_nat (n - of_char CHR ''a'' + 10))
     else if of_char CHR ''A'' \<le> n \<and> n \<le> of_char CHR ''F''
       then Some (of_nat (n - of_char CHR ''A'' + 10))
     else None)"

fun DecodeString :: "string \<Rightarrow> 8 word list option" where
  "DecodeString [] = Some []"
| "DecodeString [c] = None"
| "DecodeString (p # q # s) =
    (case fromHexChar p of
       None \<Rightarrow> None
     | Some a \<Rightarrow>
        (case fromHexChar q of
           None \<Rightarrow> None
         | Some b \<Rightarrow>
            (case DecodeString s of
               None \<Rightarrow> None
             | Some dst \<Rightarrow> Some ((push_bit 4 a OR b) # dst))))"

text \<open>
  \<open>sha1.Sum\<close> returns a \<open>[Size]byte\<close> with \<open>Size = 20\<close>. The hash function itself is an
  argument \<open>sha1_Sum\<close> of the model; its result type carries the array length.
\<close>

typedef sha1_digest = "{bs :: 8 word list. length bs = 20}"
  by (rule exI [of _ "replicate 20 0"]) simp

subsection \<open>The message fabricator\<close>

text \<open>The two fields of \<open>module.MsgMetadata\<close> that \<open>RandomMsg\<close> sets.\<close>

record MsgMetadata =
  DontTraceSender :: bool
  ID :: string

text \<open>
  A \<open>textproto.Header\<close> is built by \<open>Add\<close> only. The model keeps the fields as the list of
  the \<open>(key, value)\<close> arguments of the \<open>Add\<close> calls, oldest first.
\<close>

type_synonym Header = "(string \<times> string) list"

definition Add :: "Header \<Rightarrow> string \<Rightarrow> string \<Rightarrow> Header" where
  "Add hdr k v = hdr @ [(k, v)]"

record MemoryBuffer =
  Slice :: string

text \<open>
  Modelled from the spec: \<open>buffer.MemoryBuffer\<close> and its \<open>Open\<close> method are not under
  \<open>src/\<close>. The spec calls the body buffer an immutable, re-readable byte sequence: opening
  it yields all its bytes and leaves the buffer as it was.
\<close>

definition Open :: "MemoryBuffer \<Rightarrow> string \<times> MemoryBuffer" where
  "Open buf = (Slice buf, buf)"

text \<open>The part of \<open>testing.B\<close> the file reads: the benchmark's name and \<open>b.N\<close>.\<close>

record testing_B =
  Name :: string
  N :: nat

definition RandomMsg ::
  "(string \<Rightarrow> sha1_digest) \<Rightarrow> (string \<times> string) list \<Rightarrow> testing_B
    \<Rightarrow> MsgMetadata \<times> Header \<times> MemoryBuffer" where
  "RandomMsg sha1_Sum ord b =
    (let IDRaw = sha1_Sum (Name b);
         encodedID = EncodeToString (Rep_sha1_digest IDRaw);
         hdr = [];
         hdr = fold (\<lambda>(k, v) hdr. Add hdr k v) ord hdr;
         hdr = fold (\<lambda>i hdr. Add hdr (''AAAAAAAAAAAA-'' @ Itoa i)
                                   (Repeat ''A'' ExtraMessageHeaderFieldSize))
                    [0..<ExtraMessageHeaderFields] hdr
     in (\<lparr>DontTraceSender = True, ID = encodedID\<rparr>, hdr,
         \<lparr>Slice = Repeat ''a'' MessageBodySize\<rparr>))"

subsection \<open>The partial-status collector\<close>

text \<open>
  \<open>multipleErrs\<close> is a \<open>map[string]error\<close>. A key can be present with the value \<open>nil\<close>, so
  the stored value is an \<^typ>\<open>'e option\<close> of its own: \<open>m r = Some None\<close> says that \<open>r\<close> is a
  key whose outcome is \<open>nil\<close>.
\<close>

datatype error = Error string

type_synonym multipleErrs = "string \<rightharpoonup> error option"

definition SetStatus :: "multipleErrs \<Rightarrow> string \<Rightarrow> error option \<Rightarrow> multipleErrs" where
  "SetStatus m rcptTo err = m(rcptTo \<mapsto> err)"

text \<open>A sequence of \<open>SetStatus\<close> calls on one collector, in the order they are made.\<close>

definition SetStatus_calls :: "(string \<times> error option) list \<Rightarrow> multipleErrs \<Rightarrow> multipleErrs" where
  "SetStatus_calls calls m = fold (\<lambda>(rcptTo, err) m. SetStatus m rcptTo err) calls m"

subsection \<open>The delivery target\<close>

text \<open>
  \<open>module.DeliveryTarget\<close> and \<open>module.Delivery\<close> are interfaces: the benchmark works with
  any implementation. A target is a record of its operations over a backend state \<open>'s\<close> of
  its own; each operation returns its result and the new state. \<open>nil\<close> is \<open>None\<close>.

  A \<open>Delivery\<close> value stands for the object \<open>Start\<close> returned: a handle, and whether the
  object's dynamic type also implements \<open>module.PartialDelivery\<close>, which is what the type
  assertion \<open>delivery.(module.PartialDelivery)\<close> probes.

  \<open>BodyNonAtomic\<close> has no result. All it can do with the collector it is given is call
  \<open>SetStatus\<close>, so the operation returns the list of the \<open>SetStatus\<close> calls it makes.
\<close>

datatype Delivery = Delivery (handle: nat) (implementsPartial: bool)

record 's DeliveryTarget =
  Start :: "MsgMetadata \<Rightarrow> string \<Rightarrow> 's \<Rightarrow> (error + Delivery) \<times> 's"
  AddRcpt :: "Delivery \<Rightarrow> string \<Rightarrow> 's \<Rightarrow> error option \<times> 's"
  Body :: "Delivery \<Rightarrow> Header \<Rightarrow> MemoryBuffer \<Rightarrow> 's \<Rightarrow> error option \<times> 's"
  BodyNonAtomic ::
    "Delivery \<Rightarrow> Header \<Rightarrow> MemoryBuffer \<Rightarrow> 's \<Rightarrow> (string \<times> error option) list \<times> 's"
  Commit :: "Delivery \<Rightarrow> 's \<Rightarrow> error option \<times> 's"
  Abort :: "Delivery \<Rightarrow> 's \<Rightarrow> error option \<times> 's"

text \<open>
  What the benchmark does to the target is observed as a trace of events, one for each call
  it makes, in the order of the calls. \<open>EvStart d\<close> is a \<open>Start\<close> that returned the delivery
  \<open>d\<close>, \<open>EvStartErr\<close> one that returned an error. \<open>EvBodyNonAtomic d sc calls h body\<close> records
  the collector \<open>sc\<close> as it is when the call is made and the \<open>SetStatus\<close> calls the target
  makes on it.
\<close>

datatype event =
    EvStart Delivery
  | EvStartErr error
  | EvAddRcpt Delivery string
  | EvBody Delivery Header MemoryBuffer
  | EvBodyNonAtomic Delivery multipleErrs "(string \<times> error option) list" Header MemoryBuffer
  | EvCommit Delivery
  | EvAbort Delivery

text \<open>
  How a benchmark function ends: it returns, \<open>b.Fatal\<close> or \<open>b.Skip\<close> ends it early (both
  leave through \<open>runtime.Goexit\<close>, which runs the deferred calls), or a run-time panic does
  (which runs the deferred calls too).
\<close>

datatype panic = DivideByZero | IndexOutOfRange

datatype outcome = Finished | Fatal error | Skipped string | Panicked panic

subsection \<open>Recipient addresses\<close>

text \<open>Integer \<open>%\<close> on non-negative operands and slice indexing, with their panics.\<close>

definition go_mod :: "nat \<Rightarrow> nat \<Rightarrow> panic + nat" where
  "go_mod a b = (if b = 0 then Inl DivideByZero else Inr (a mod b))"

definition index :: "'a list \<Rightarrow> nat \<Rightarrow> panic + 'a" where
  "index xs j = (if j < length xs then Inr (xs ! j) else Inl IndexOutOfRange)"

text \<open>
  Line 90:
  \<open>strings.Replace(recipientTemplates[i%len(recipientTemplates)], "X", strconv.Itoa(i), -1)\<close>.
\<close>

definition AddRcpt_rcpt :: "string list \<Rightarrow> nat \<Rightarrow> panic + string" where
  "AddRcpt_rcpt recipientTemplates i =
    (case go_mod i (length recipientTemplates) of
       Inl p \<Rightarrow> Inl p
     | Inr j \<Rightarrow>
        (case index recipientTemplates j of
           Inl p \<Rightarrow> Inl p
         | Inr rcptTemplate \<Rightarrow> Inr (Replace rcptTemplate CHR ''X'' (Itoa i))))"

subsection \<open>The loops of the benchmark\<close>

text \<open>
  A loop \<open>for i := 0; i < b.N; i++\<close> runs its body for the values \<open>[0..<N b]\<close> of \<open>i\<close>, and
  \<open>for i, t := range ts\<close> for the pairs \<open>enumerate 0 ts\<close>; each loop function below takes
  the values still to come and stops at the first \<open>b.Fatal\<close>. Every function returns how
  it ended, the events of its calls and the target's state.
\<close>

text \<open>Lines 67-73. The deliveries are appended to \<open>deliveries\<close>.\<close>

fun Start_loop ::
  "'s DeliveryTarget \<Rightarrow> MsgMetadata \<Rightarrow> string \<Rightarrow> nat list \<Rightarrow> Delivery list \<Rightarrow> 's
    \<Rightarrow> outcome \<times> Delivery list \<times> event list \<times> 's" where
  "Start_loop target meta sender [] deliveries s = (Finished, deliveries, [], s)"
| "Start_loop target meta sender (i # is) deliveries s =
    (case Start target meta sender s of
       (Inl err, s') \<Rightarrow> (Fatal err, deliveries, [EvStartErr err], s')
     | (Inr delivery, s') \<Rightarrow>
         (case Start_loop target meta sender is (deliveries @ [delivery]) s' of
            (r, ds, tr, s'') \<Rightarrow> (r, ds, EvStart delivery # tr, s'')))"

text \<open>Lines 76-78.\<close>

fun Abort_loop :: "'s DeliveryTarget \<Rightarrow> Delivery list \<Rightarrow> 's \<Rightarrow> event list \<times> 's" where
  "Abort_loop target [] s = ([], s)"
| "Abort_loop target (delivery # deliveries) s =
    (case Abort target delivery s of
       (_, s') \<Rightarrow>
         (case Abort_loop target deliveries s' of
            (tr, s'') \<Rightarrow> (EvAbort delivery # tr, s'')))"

text \<open>Lines 89-95.\<close>

fun AddRcpt_loop ::
  "'s DeliveryTarget \<Rightarrow> Delivery \<Rightarrow> string list \<Rightarrow> nat list \<Rightarrow> 's
    \<Rightarrow> outcome \<times> event list \<times> 's" where
  "AddRcpt_loop target delivery recipientTemplates [] s = (Finished, [], s)"
| "AddRcpt_loop target delivery recipientTemplates (i # is) s =
    (case AddRcpt_rcpt recipientTemplates i of
       Inl p \<Rightarrow> (Panicked p, [], s)
     | Inr rcpt \<Rightarrow>
        (case AddRcpt target delivery rcpt s of
           (Some err, s') \<Rightarrow> (Fatal err, [EvAddRcpt delivery rcpt], s')
         | (None, s') \<Rightarrow>
             (case AddRcpt_loop target delivery recipientTemplates is s' of
                (r, tr, s'') \<Rightarrow> (r, EvAddRcpt delivery rcpt # tr, s''))))"

text \<open>Lines 110-116, and the same loop at lines 142-148 and 166-172.\<close>

fun range_loop ::
  "'s DeliveryTarget \<Rightarrow> Delivery \<Rightarrow> (nat \<times> string) list \<Rightarrow> 's \<Rightarrow> outcome \<times> event list \<times> 's" where
  "range_loop target delivery [] s = (Finished, [], s)"
| "range_loop target delivery ((i, rcptTemplate) # rest) s =
    (let rcpt = Replace rcptTemplate CHR ''X'' (Itoa i) in
     case AddRcpt target delivery rcpt s of
       (Some err, s') \<Rightarrow> (Fatal err, [EvAddRcpt delivery rcpt], s')
     | (None, s') \<Rightarrow>
         (case range_loop target delivery rest s' of
            (r, tr, s'') \<Rightarrow> (r, EvAddRcpt delivery rcpt # tr, s'')))"

text \<open>Lines 118-122.\<close>

fun Body_loop ::
  "'s DeliveryTarget \<Rightarrow> Delivery \<Rightarrow> Header \<Rightarrow> MemoryBuffer \<Rightarrow> nat list \<Rightarrow> 's
    \<Rightarrow> outcome \<times> event list \<times> 's" where
  "Body_loop target delivery header body [] s = (Finished, [], s)"
| "Body_loop target delivery header body (i # is) s =
    (case Body target delivery header body s of
       (Some err, s') \<Rightarrow> (Fatal err, [EvBody delivery header body], s')
     | (None, s') \<Rightarrow>
         (case Body_loop target delivery header body is s' of
            (r, tr, s'') \<Rightarrow> (r, EvBody delivery header body # tr, s'')))"

text \<open>
  Lines 152-154. The collector \<open>sc\<close> is the one Go map of line 150: every call gets it as the
  calls before have left it.
\<close>

fun BodyNonAtomic_loop ::
  "'s DeliveryTarget \<Rightarrow> Delivery \<Rightarrow> multipleErrs \<Rightarrow> Header \<Rightarrow> MemoryBuffer \<Rightarrow> nat list \<Rightarrow> 's
    \<Rightarrow> outcome \<times> event list \<times> 's" where
  "BodyNonAtomic_loop target partialDelivery sc header body [] s = (Finished, [], s)"
| "BodyNonAtomic_loop target partialDelivery sc header body (i # is) s =
    (case BodyNonAtomic target partialDelivery header body s of
       (calls, s') \<Rightarrow>
         (case BodyNonAtomic_loop target partialDelivery (SetStatus_calls calls sc)
                 header body is s' of
            (r, tr, s'') \<Rightarrow>
              (r, EvBodyNonAtomic partialDelivery sc calls header body # tr, s'')))"

text \<open>Lines 160-181.\<close>

fun Full_loop ::
  "'s DeliveryTarget \<Rightarrow> MsgMetadata \<Rightarrow> Header \<Rightarrow> MemoryBuffer \<Rightarrow> string \<Rightarrow> string list
    \<Rightarrow> nat list \<Rightarrow> 's \<Rightarrow> outcome \<times> event list \<times> 's" where
  "Full_loop target meta header body sender recipientTemplates [] s = (Finished, [], s)"
| "Full_loop target meta header body sender recipientTemplates (i # is) s =
    (case Start target meta sender s of
       (Inl err, s1) \<Rightarrow> (Fatal err, [EvStartErr err], s1)
     | (Inr delivery, s1) \<Rightarrow>
        (case range_loop target delivery (enumerate 0 recipientTemplates) s1 of
           (Finished, tr1, s2) \<Rightarrow>
             (case Body target delivery header body s2 of
                (Some err, s3) \<Rightarrow>
                  (Fatal err, EvStart delivery # tr1 @ [EvBody delivery header body], s3)
              | (None, s3) \<Rightarrow>
                 (case Commit target delivery s3 of
                    (Some err, s4) \<Rightarrow>
                      (Fatal err,
                       EvStart delivery # tr1 @ [EvBody delivery header body, EvCommit delivery],
                       s4)
                  | (None, s4) \<Rightarrow>
                     (case Full_loop target meta header body sender recipientTemplates is s4 of
                        (r, tr, s5) \<Rightarrow>
                          (r,
                           EvStart delivery # tr1
                             @ [EvBody delivery header body, EvCommit delivery] @ tr,
                           s5))))
         | (r, tr1, s2) \<Rightarrow> (r, EvStart delivery # tr1, s2)))"

subsection \<open>The five phases\<close>

text \<open>
  Each sub-benchmark is a function of its own \<open>b\<close>. A deferred \<open>delivery.Abort()\<close> runs when
  the function is left, however it is left; its result is dropped.
\<close>

definition deferred_Abort ::
  "'s DeliveryTarget \<Rightarrow> Delivery \<Rightarrow> outcome \<times> event list \<times> 's \<Rightarrow> outcome \<times> event list \<times> 's" where
  "deferred_Abort target delivery res =
    (case res of
       (r, tr, s) \<Rightarrow> (case Abort target delivery s of (_, s') \<Rightarrow> (r, tr @ [EvAbort delivery], s')))"

text \<open>Lines 62-79.\<close>

definition BenchDelivery_Start ::
  "(string \<Rightarrow> sha1_digest) \<Rightarrow> (string \<times> string) list \<Rightarrow> testing_B \<Rightarrow> 's DeliveryTarget
    \<Rightarrow> string \<Rightarrow> 's \<Rightarrow> outcome \<times> event list \<times> 's" where
  "BenchDelivery_Start sha1_Sum ord b target sender s =
    (case RandomMsg sha1_Sum ord b of
       (meta, _, _) \<Rightarrow>
         (case Start_loop target meta sender [0..<N b] [] s of
            (Finished, deliveries, tr, s') \<Rightarrow>
              (case Abort_loop target deliveries s' of
                 (tr', s'') \<Rightarrow> (Finished, tr @ tr', s''))
          | (r, deliveries, tr, s') \<Rightarrow> (r, tr, s')))"

text \<open>Lines 81-96.\<close>

definition BenchDelivery_AddRcpt ::
  "(string \<Rightarrow> sha1_digest) \<Rightarrow> (string \<times> string) list \<Rightarrow> testing_B \<Rightarrow> 's DeliveryTarget
    \<Rightarrow> string \<Rightarrow> string list \<Rightarrow> 's \<Rightarrow> outcome \<times> event list \<times> 's" where
  "BenchDelivery_AddRcpt sha1_Sum ord b target sender recipientTemplates s =
    (case RandomMsg sha1_Sum ord b of
       (meta, _, _) \<Rightarrow>
         (case Start target meta sender s of
            (Inl err, s') \<Rightarrow> (Fatal err, [EvStartErr err], s')
          | (Inr delivery, s') \<Rightarrow>
              deferred_Abort target delivery
                (case AddRcpt_loop target delivery recipientTemplates [0..<N b] s' of
                   (r, tr, s'') \<Rightarrow> (r, EvStart delivery # tr, s''))))"

text \<open>Lines 98-123.\<close>

definition BenchDelivery_Body ::
  "(string \<Rightarrow> sha1_digest) \<Rightarrow> (string \<times> string) list \<Rightarrow> testing_B \<Rightarrow> 's DeliveryTarget
    \<Rightarrow> bool \<Rightarrow> string \<Rightarrow> string list \<Rightarrow> 's \<Rightarrow> outcome \<times> event list \<times> 's" where
  "BenchDelivery_Body sha1_Sum ord b target idempotentBody sender recipientTemplates s =
    (if \<not> idempotentBody then (Skipped ''Non-idempotent Body implementation'', [], s)
     else
      (case RandomMsg sha1_Sum ord b of
         (meta, header, body) \<Rightarrow>
           (case Start target meta sender s of
              (Inl err, s1) \<Rightarrow> (Fatal err, [EvStartErr err], s1)
            | (Inr delivery, s1) \<Rightarrow>
                deferred_Abort target delivery
                  (case range_loop target delivery (enumerate 0 recipientTemplates) s1 of
                     (Finished, tr1, s2) \<Rightarrow>
                       (case Body_loop target delivery header body [0..<N b] s2 of
                          (r, tr2, s3) \<Rightarrow> (r, EvStart delivery # tr1 @ tr2, s3))
                   | (r, tr1, s2) \<Rightarrow> (r, EvStart delivery # tr1, s2)))))"

text \<open>Lines 125-155.\<close>

definition BenchDelivery_BodyNonAtomic ::
  "(string \<Rightarrow> sha1_digest) \<Rightarrow> (string \<times> string) list \<Rightarrow> testing_B \<Rightarrow> 's DeliveryTarget
    \<Rightarrow> bool \<Rightarrow> string \<Rightarrow> string list \<Rightarrow> 's \<Rightarrow> outcome \<times> event list \<times> 's" where
  "BenchDelivery_BodyNonAtomic sha1_Sum ord b target idempotentBody sender recipientTemplates s =
    (if \<not> idempotentBody then (Skipped ''Non-idempotent Body implementation'', [], s)
     else
      (case RandomMsg sha1_Sum ord b of
         (meta, header, body) \<Rightarrow>
           (case Start target meta sender s of
              (Inl err, s1) \<Rightarrow> (Fatal err, [EvStartErr err], s1)
            | (Inr delivery, s1) \<Rightarrow>
                deferred_Abort target delivery
                  (if \<not> implementsPartial delivery
                   then (Skipped ''Delivery does not implement PartialDelivery'',
                         [EvStart delivery], s1)
                   else
                    (case range_loop target delivery (enumerate 0 recipientTemplates) s1 of
                       (Finished, tr1, s2) \<Rightarrow>
                         (let sc = Map.empty in
                          case BodyNonAtomic_loop target delivery sc header body [0..<N b] s2 of
                            (r, tr2, s3) \<Rightarrow> (r, EvStart delivery # tr1 @ tr2, s3))
                     | (r, tr1, s2) \<Rightarrow> (r, EvStart delivery # tr1, s2))))))"

text \<open>Lines 157-182.\<close>

definition BenchDelivery_Full ::
  "(string \<Rightarrow> sha1_digest) \<Rightarrow> (string \<times> string) list \<Rightarrow> testing_B \<Rightarrow> 's DeliveryTarget
    \<Rightarrow> string \<Rightarrow> string list \<Rightarrow> 's \<Rightarrow> outcome \<times> event list \<times> 's" where
  "BenchDelivery_Full sha1_Sum ord b target sender recipientTemplates s =
    (case RandomMsg sha1_Sum ord b of
       (meta, header, body) \<Rightarrow>
         Full_loop target meta header body sender recipientTemplates [0..<N b] s)"

subsection \<open>The driver\<close>



subsection \<open>Reading a trace\<close>

fun is_Start :: "Delivery \<Rightarrow> event \<Rightarrow> bool" where
  "is_Start d (EvStart d') = (d' = d)"
| "is_Start d _ = False"

fun is_terminal :: "Delivery \<Rightarrow> event \<Rightarrow> bool" where
  "is_terminal d (EvCommit d') = (d' = d)"
| "is_terminal d (EvAbort d') = (d' = d)"
| "is_terminal d _ = False"

text \<open>How often \<open>Start\<close> returned \<open>d\<close>, and how many terminal calls \<open>d\<close> got.\<close>

definition starts :: "Delivery \<Rightarrow> event list \<Rightarrow> nat" where
  "starts d tr = length (filter (is_Start d) tr)"

definition terminals :: "Delivery \<Rightarrow> event list \<Rightarrow> nat" where
  "terminals d tr = length (filter (is_terminal d) tr)"

text \<open>The \<open>(delivery, header, body)\<close> arguments of the atomic \<open>Body\<close> calls, in order.\<close>

fun Body_calls :: "event list \<Rightarrow> (Delivery \<times> Header \<times> MemoryBuffer) list" where
  "Body_calls [] = []"
| "Body_calls (EvBody d h body # tr) = (d, h, body) # Body_calls tr"
| "Body_calls (_ # tr) = Body_calls tr"

text \<open>
  A monitor for "atomic \<open>Body\<close> at most once on a transaction, between its \<open>Start\<close> and its
  terminal call". \<open>fresh\<close> holds the deliveries that \<open>Start\<close> has returned and that have had
  neither a \<open>Body\<close> nor a terminal call since. A \<open>Body\<close> call is accepted only on a fresh
  delivery, which it uses up; \<open>Commit\<close> and \<open>Abort\<close> end the transaction, so a \<open>Body\<close> after
  them is refused, as is a second \<open>Body\<close>.
\<close>

fun Body_at_most_once :: "Delivery set \<Rightarrow> event list \<Rightarrow> bool" where
  "Body_at_most_once fresh [] = True"
| "Body_at_most_once fresh (EvStart d # tr) = Body_at_most_once (insert d fresh) tr"
| "Body_at_most_once fresh (EvBody d h body # tr) =
     (d \<in> fresh \<and> Body_at_most_once (fresh - {d}) tr)"
| "Body_at_most_once fresh (EvCommit d # tr) = Body_at_most_once (fresh - {d}) tr"
| "Body_at_most_once fresh (EvAbort d # tr) = Body_at_most_once (fresh - {d}) tr"
| "Body_at_most_once fresh (EvStartErr err # tr) = Body_at_most_once fresh tr"
| "Body_at_most_once fresh (EvAddRcpt d rcpt # tr) = Body_at_most_once fresh tr"
| "Body_at_most_once fresh (EvBodyNonAtomic d sc calls h body # tr) =
     Body_at_most_once fresh tr"

text \<open>The collectors handed to the \<open>BodyNonAtomic\<close> calls, and the deliveries called.\<close>

fun collectors :: "event list \<Rightarrow> multipleErrs list" where
  "collectors [] = []"
| "collectors (EvBodyNonAtomic d sc calls h body # tr) = sc # collectors tr"
| "collectors (_ # tr) = collectors tr"

fun BodyNonAtomic_deliveries :: "event list \<Rightarrow> Delivery list" where
  "BodyNonAtomic_deliveries [] = []"
| "BodyNonAtomic_deliveries (EvBodyNonAtomic d sc calls h body # tr) =
     d # BodyNonAtomic_deliveries tr"
| "BodyNonAtomic_deliveries (_ # tr) = BodyNonAtomic_deliveries tr"

text \<open>
  A monitor for the way the collector is passed on: the next \<open>BodyNonAtomic\<close> call gets \<open>m\<close>,
  and the one after it gets what the \<open>SetStatus\<close> calls of this one make of it.
\<close>

fun collector_chain :: "multipleErrs \<Rightarrow> event list \<Rightarrow> bool" where
  "collector_chain m [] = True"
| "collector_chain m (EvBodyNonAtomic d sc calls h body # tr) =
     (sc = m \<and> collector_chain (SetStatus_calls calls sc) tr)"
| "collector_chain m (_ # tr) = collector_chain m tr"

text \<open>The recipients of the \<open>AddRcpt\<close> calls, in order.\<close>

fun AddRcpt_calls :: "event list \<Rightarrow> string list" where
  "AddRcpt_calls [] = []"
| "AddRcpt_calls (EvAddRcpt d rcpt # tr) = rcpt # AddRcpt_calls tr"
| "AddRcpt_calls (_ # tr) = AddRcpt_calls tr"

subsection \<open>Test doubles\<close>

text \<open>
  A small in-memory target to run the benchmark on: it hands out the handles 0, 1, ... and
  refuses \<open>Start\<close> once \<open>maxStarts\<close> deliveries exist, rejects the recipients in
  \<open>rejected\<close>, keeps the accepted ones, and reports success for each recipient of a delivery
  in \<open>BodyNonAtomic\<close>.
\<close>

record backend =
  next_handle :: nat
  accepted :: "(nat \<times> string) list"

definition backend0 :: backend where
  "backend0 = \<lparr>next_handle = 0, accepted = []\<rparr>"

definition testTarget :: "nat \<Rightarrow> string list \<Rightarrow> bool \<Rightarrow> backend DeliveryTarget" where
  "testTarget maxStarts rejected partial =
    \<lparr>Start = (\<lambda>meta sender s.
        if next_handle s < maxStarts
        then (Inr (Delivery (next_handle s) partial), s\<lparr>next_handle := Suc (next_handle s)\<rparr>)
        else (Inl (Error ''no more deliveries''), s)),
     AddRcpt = (\<lambda>d rcpt s.
        if rcpt \<in> set rejected then (Some (Error ''recipient rejected''), s)
        else (None, s\<lparr>accepted := accepted s @ [(handle d, rcpt)]\<rparr>)),
     Body = (\<lambda>d header body s. (None, s)),
     BodyNonAtomic = (\<lambda>d header body s.
        (map (\<lambda>(h, rcpt). (rcpt, None)) (filter (\<lambda>(h, rcpt). h = handle d) (accepted s)), s)),
     Commit = (\<lambda>d s. (None, s)),
     Abort = (\<lambda>d s. (None, s))\<rparr>"

text \<open>A stand-in for the hash: the first 20 bytes of the name, padded with zeros.\<close>

definition test_Sum :: "string \<Rightarrow> sha1_digest" where
  "test_Sum name = Abs_sha1_digest (take 20 (map of_char name @ replicate 20 0))"

definition test_B :: "nat \<Rightarrow> testing_B" where
  "test_B n = \<lparr>Name = ''BenchmarkDelivery'', N = n\<rparr>"

text \<open>The events of an \<open>AddRcpt\<close> call.\<close>

fun is_AddRcpt :: "event \<Rightarrow> bool" where
  "is_AddRcpt (EvAddRcpt d rcpt) = True"
| "is_AddRcpt _ = False"

subsection \<open>Scenarios\<close>

text \<open>
  Runs of single phases and of the whole driver on the test target, with the sender
  \<open>a@example.org\<close>. \<open>leak_Full\<close>: the target rejects the first recipient. \<open>leak_Start\<close>: the
  target refuses the second \<open>Start\<close>. \<open>repeat_Body\<close>, \<open>repeat_BodyNonAtomic\<close>: two timed
  iterations. \<open>skipped_BodyNonAtomic\<close>: the delivery has no \<open>BodyNonAtomic\<close>.
  \<open>panicking_AddRcpt\<close>: no templates. \<open>nonidempotent_run\<close>: the five phases with
  \<open>idempotentBody = false\<close>.
\<close>

definition leak_Full :: "outcome \<times> event list \<times> backend" where
  "leak_Full =
    BenchDelivery_Full test_Sum headerPreamble_literal (test_B 1)
      (testTarget 5 [''b0@example.org''] False) ''a@example.org'' [''bX@example.org''] backend0"

definition leak_Start :: "outcome \<times> event list \<times> backend" where
  "leak_Start =
    BenchDelivery_Start test_Sum headerPreamble_literal (test_B 2)
      (testTarget 1 [] False) ''a@example.org'' backend0"

definition repeat_Body :: "outcome \<times> event list \<times> backend" where
  "repeat_Body =
    BenchDelivery_Body test_Sum headerPreamble_literal (test_B 2)
      (testTarget 5 [] False) True ''a@example.org'' [''bX@example.org''] backend0"

definition repeat_BodyNonAtomic :: "outcome \<times> event list \<times> backend" where
  "repeat_BodyNonAtomic =
    BenchDelivery_BodyNonAtomic test_Sum headerPreamble_literal (test_B 2)
      (testTarget 5 [] True) True ''a@example.org'' [''bX@example.org''] backend0"


definition skipped_BodyNonAtomic :: "outcome \<times> event list \<times> backend" where
  "skipped_BodyNonAtomic =
    BenchDelivery_BodyNonAtomic test_Sum headerPreamble_literal (test_B 2)
      (testTarget 5 [] False) True ''a@example.org'' [''bX@example.org''] backend0"

definition panicking_AddRcpt :: "outcome \<times> event list \<times> backend" where
  "panicking_AddRcpt =
    BenchDelivery_AddRcpt test_Sum headerPreamble_literal (test_B 2)
      (testTarget 5 [] False) ''a@example.org'' [] backend0"

section \<open>Properties of the message fabricator\<close>

lemma nibble_hi: "unat (drop_bit 4 (v :: 8 word)) < 16"
proof -
  have "unat (drop_bit 4 v) = drop_bit 4 (unat v)" by (simp only: unat_drop_bit_eq)
  also have "\<dots> = unat v div 2 ^ 4" by (simp only: drop_bit_eq_div)
  finally have "unat (drop_bit 4 v) = unat v div 2 ^ 4" .
  moreover have "unat v < 2 ^ 8" using unsigned_less [of v] by simp
  ultimately show ?thesis by simp
qed

lemma nibble_lo: "unat ((v :: 8 word) AND 0x0f) < 16"
proof -
  have "unat (v AND 15) \<le> unat (15 :: 8 word)"
    by (rule word_and_le1 [THEN word_le_nat_alt [THEN iffD1]])
  then show ?thesis by simp
qed

lemma hextable_nth: "n < 16 \<Longrightarrow> hextable ! n \<in> set hextable"
proof -
  assume "n < 16"
  then have "n < length hextable" by (simp add: hextable_def)
  then show ?thesis by (rule nth_mem)
qed

lemma length_EncodeToString: "length (EncodeToString src) = 2 * length src"
  by (induction src) simp_all

lemma set_EncodeToString: "set (EncodeToString src) \<subseteq> set hextable"
  by (induction src) (simp_all add: hextable_nth nibble_hi nibble_lo)

lemma length_Rep_sha1_digest: "length (Rep_sha1_digest d) = 20"
  using Rep_sha1_digest [of d] by simp

lemma less_16_cases:
  "n < 16 \<Longrightarrow> n \<in> {0, 1, 2, 3, 4, 5, 6, 7, 8, 9, 10, 11, 12, 13, 14, 15::nat}"
  by simp arith

lemma fromHexChar_hextable:
  assumes "n < 16" shows "fromHexChar (hextable ! n) = Some (of_nat n)"
  using less_16_cases [OF assms]
  by (auto simp: fromHexChar_def hextable_def)

lemma unat_hi: "unat (drop_bit 4 (v :: 8 word)) = unat v div 16"
proof -
  have "unat (drop_bit 4 v) = drop_bit 4 (unat v)" by (simp only: unat_drop_bit_eq)
  also have "\<dots> = unat v div 2 ^ 4" by (simp only: drop_bit_eq_div)
  finally show ?thesis by simp
qed

lemma and_15: "(v :: 8 word) AND 0x0f = take_bit 4 v"
  by (simp add: take_bit_eq_mask mask_eq_exp_minus_1)

lemma unat_lo: "unat ((v :: 8 word) AND 0x0f) = unat v mod 16"
proof -
  have "unat (v AND 0x0f) = take_bit 4 (unat v)"
    by (simp only: and_15 unsigned_take_bit_eq)
  also have "\<dots> = unat v mod 2 ^ 4"
    by (simp only: take_bit_eq_mod)
  finally show ?thesis by simp
qed

lemma nibbles_join: "push_bit 4 (drop_bit 4 v) OR (v AND 0x0f) = (v :: 8 word)"
  unfolding and_15 by (rule bit_eqI) (auto simp: bit_simps)

lemma DecodeString_EncodeToString: "DecodeString (EncodeToString src) = Some src"
proof (induction src)
  case Nil
  show ?case by simp
next
  case (Cons v src)
  have hi: "fromHexChar (hextable ! unat (drop_bit 4 v)) = Some (drop_bit 4 v)"
    using fromHexChar_hextable [OF nibble_hi [of v]] by simp
  have lo: "fromHexChar (hextable ! unat (v AND 0x0f)) = Some (v AND 0x0f)"
    using fromHexChar_hextable [OF nibble_lo [of v]] by simp
  show ?case
    by (simp add: hi lo Cons.IH nibbles_join)
qed

lemma EncodeToString_nth:
  "k < length src \<Longrightarrow>
    EncodeToString src ! (2 * k) = ''0123456789abcdef'' ! (unat (src ! k) div 16)
    \<and> EncodeToString src ! (2 * k + 1) = ''0123456789abcdef'' ! (unat (src ! k) mod 16)"
proof (induction src arbitrary: k)
  case Nil
  then show ?case by simp
next
  case (Cons v src)
  show ?case
  proof (cases k)
    case 0
    then show ?thesis by (simp add: unat_hi unat_lo hextable_def)
  next
    case (Suc j)
    with Cons.prems have "j < length src" by simp
    from Cons.IH [OF this] show ?thesis by (simp add: Suc)
  qed
qed

lemma EncodeToString_inj: "EncodeToString src = EncodeToString src' \<Longrightarrow> src = src'"
  by (metis DecodeString_EncodeToString option.inject)

lemma fold_Add_pairs: "fold (\<lambda>(k, v) hdr. Add hdr k v) ord hdr = hdr @ ord"
  by (induction ord arbitrary: hdr) (auto simp: Add_def)

lemma fold_Add_map: "fold (\<lambda>i hdr. Add hdr (f i) (g i)) is hdr = hdr @ map (\<lambda>i. (f i, g i)) is"
  by (induction "is" arbitrary: hdr) (auto simp: Add_def)

lemma Repeat_single: "Repeat [c] n = replicate n c"
  by (induction n) (simp_all add: Repeat_def)

lemma RandomMsg_eq:
  "RandomMsg sha1_Sum ord b =
    (\<lparr>DontTraceSender = True, ID = EncodeToString (Rep_sha1_digest (sha1_Sum (Name b)))\<rparr>,
     ord @ map (\<lambda>i. (''AAAAAAAAAAAA-'' @ Itoa i, replicate ExtraMessageHeaderFieldSize CHR ''A''))
              [0..<ExtraMessageHeaderFields],
     \<lparr>Slice = replicate MessageBodySize CHR ''a''\<rparr>)"
  by (simp add: RandomMsg_def Let_def fold_Add_pairs fold_Add_map Repeat_single)

lemma dom_headerPreamble:
  "dom headerPreamble = {''From'', ''Message-ID'', ''To'', ''Date'', ''Subject'', ''Content-Type'',
     ''MIME-Version'', ''Content-Transfer-Encoding'', ''Received''}"
  by (simp add: headerPreamble_def headerPreamble_literal_def dom_map_of_conv_image_fst)

lemma card_dom_headerPreamble: "card (dom headerPreamble) = 9"
  by (simp add: dom_headerPreamble)

lemma range_order_length:
  assumes "range_order m ord" shows "length ord = card (dom m)"
proof -
  from assms have "m = map_of ord" by (simp add: range_order_def)
  then have "dom m = set (map fst ord)" by (simp add: dom_map_of_conv_image_fst)
  moreover from assms have "distinct (map fst ord)" by (simp add: range_order_def)
  then have "card (set (map fst ord)) = length (map fst ord)" by (rule distinct_card)
  ultimately show ?thesis by simp
qed

lemma range_order_literal: "range_order headerPreamble headerPreamble_literal"
  by (simp add: range_order_def headerPreamble_def headerPreamble_literal_def)

lemma range_order_rev: "range_order headerPreamble (rev headerPreamble_literal)"
  unfolding range_order_def headerPreamble_def 
  by (simp add: headerPreamble_literal_def fun_eq_iff)


lemma Rep_test_Sum: "Rep_sha1_digest (test_Sum name) = take 20 (map of_char name @ replicate 20 0)"
  unfolding test_Sum_def by (rule Abs_sha1_digest_inverse) simp

lemma replicate_3: "replicate 3 x = [x, x, x]"
  by (simp add: numeral_3_eq_3)

text \<open>
  Claim C6. For every benchmark name, the metadata \<open>RandomMsg\<close> returns has as its \<open>ID\<close> the
  hexadecimal encoding of the SHA-1 digest of the name: 40 characters, each a lower-case
  hexadecimal digit, where characters \<open>2k\<close> and \<open>2k + 1\<close> are the digits for the high and the
  low four bits of byte \<open>k\<close> of the digest. Decoding the \<open>ID\<close> gives the 20 bytes of the
  digest back, so names with different digests get different \<open>ID\<close>s. Two calls on
  benchmarks of the same name give the same \<open>ID\<close>, whatever the order of the map iteration,
  and \<open>DontTraceSender\<close> is true.
\<close>

theorem RandomMsg_metadata:
  "ID (fst (RandomMsg sha1_Sum ord b)) = EncodeToString (Rep_sha1_digest (sha1_Sum (Name b)))
   \<and> length (ID (fst (RandomMsg sha1_Sum ord b))) = 40
   \<and> set (ID (fst (RandomMsg sha1_Sum ord b))) \<subseteq> set ''0123456789abcdef''
   \<and> (\<forall>k<20.
        ID (fst (RandomMsg sha1_Sum ord b)) ! (2 * k)
          = ''0123456789abcdef'' ! (unat (Rep_sha1_digest (sha1_Sum (Name b)) ! k) div 16)
        \<and> ID (fst (RandomMsg sha1_Sum ord b)) ! (2 * k + 1)
          = ''0123456789abcdef'' ! (unat (Rep_sha1_digest (sha1_Sum (Name b)) ! k) mod 16))
   \<and> DecodeString (ID (fst (RandomMsg sha1_Sum ord b)))
        = Some (Rep_sha1_digest (sha1_Sum (Name b)))
   \<and> DontTraceSender (fst (RandomMsg sha1_Sum ord b))
   \<and> (Name b' = Name b \<longrightarrow>
        ID (fst (RandomMsg sha1_Sum ord' b')) = ID (fst (RandomMsg sha1_Sum ord b)))
   \<and> (sha1_Sum (Name b') \<noteq> sha1_Sum (Name b) \<longrightarrow>
        ID (fst (RandomMsg sha1_Sum ord' b')) \<noteq> ID (fst (RandomMsg sha1_Sum ord b)))"
proof -
  let ?d = "Rep_sha1_digest (sha1_Sum (Name b))"
  have id: "ID (fst (RandomMsg sha1_Sum ord b)) = EncodeToString ?d"
    and id': "ID (fst (RandomMsg sha1_Sum ord' b'))
      = EncodeToString (Rep_sha1_digest (sha1_Sum (Name b')))"
    and flag: "DontTraceSender (fst (RandomMsg sha1_Sum ord b))"
    by (simp_all add: RandomMsg_eq)
  have len: "length (EncodeToString ?d) = 40"
    by (simp add: length_EncodeToString length_Rep_sha1_digest)
  have hex: "set (EncodeToString ?d) \<subseteq> set ''0123456789abcdef''"
    using set_EncodeToString [of ?d] by (simp add: hextable_def)
  have nib: "\<forall>k<20.
      EncodeToString ?d ! (2 * k) = ''0123456789abcdef'' ! (unat (?d ! k) div 16)
      \<and> EncodeToString ?d ! (2 * k + 1) = ''0123456789abcdef'' ! (unat (?d ! k) mod 16)"
    using EncodeToString_nth [of _ ?d] by (simp add: length_Rep_sha1_digest)
  have dec: "DecodeString (EncodeToString ?d) = Some ?d"
    by (rule DecodeString_EncodeToString)
  have same: "Name b' = Name b \<longrightarrow>
      EncodeToString (Rep_sha1_digest (sha1_Sum (Name b'))) = EncodeToString ?d"
    by simp
  have diff: "sha1_Sum (Name b') \<noteq> sha1_Sum (Name b) \<longrightarrow>
      EncodeToString (Rep_sha1_digest (sha1_Sum (Name b'))) \<noteq> EncodeToString ?d"
    by (auto dest!: EncodeToString_inj simp: Rep_sha1_digest_inject)
  from len hex nib dec flag same diff show ?thesis
    unfolding id id' by blast
qed

theorem RandomMsg_metadata_witness:
  "Name \<lparr>Name = ''BenchmarkDelivery'', N = 7\<rparr> = Name (test_B 1)
   \<and> ID (fst (RandomMsg test_Sum (rev headerPreamble_literal) \<lparr>Name = ''BenchmarkDelivery'', N = 7\<rparr>))
       = ID (fst (RandomMsg test_Sum headerPreamble_literal (test_B 1)))
   \<and> ID (fst (RandomMsg test_Sum headerPreamble_literal (test_B 1)))
       = ''42656e63686d61726b44656c6976657279000000''
   \<and> (9::nat) < 20
   \<and> Rep_sha1_digest (test_Sum (Name (test_B 1))) ! 9 = 0x44
   \<and> ''42656e63686d61726b44656c6976657279000000'' ! (2 * 9) = ''0123456789abcdef'' ! (0x44 div 16)
   \<and> ''42656e63686d61726b44656c6976657279000000'' ! (2 * 9 + 1)
       = ''0123456789abcdef'' ! (0x44 mod 16)
   \<and> DecodeString ''42656e63686d61726b44656c6976657279000000''
       = Some (Rep_sha1_digest (test_Sum (Name (test_B 1))))
   \<and> test_Sum (Name \<lparr>Name = ''BenchmarkOther'', N = 7\<rparr>) \<noteq> test_Sum (Name (test_B 1))
   \<and> ID (fst (RandomMsg test_Sum headerPreamble_literal \<lparr>Name = ''BenchmarkOther'', N = 7\<rparr>))
       \<noteq> ID (fst (RandomMsg test_Sum headerPreamble_literal (test_B 1)))
   \<and> DontTraceSender (fst (RandomMsg test_Sum headerPreamble_literal (test_B 1)))"
proof -
  let ?b = "test_B 1"
  let ?id = "ID (fst (RandomMsg test_Sum headerPreamble_literal ?b))"
  note t1 = RandomMsg_metadata [of test_Sum headerPreamble_literal ?b
      "\<lparr>Name = ''BenchmarkDelivery'', N = 7\<rparr>" "rev headerPreamble_literal"]
  note t2 = RandomMsg_metadata [of test_Sum headerPreamble_literal ?b
      "\<lparr>Name = ''BenchmarkOther'', N = 7\<rparr>" headerPreamble_literal]
  have nm: "Name \<lparr>Name = ''BenchmarkDelivery'', N = 7\<rparr> = Name ?b"
    by (simp add: test_B_def)
  have rep: "Rep_sha1_digest (test_Sum (Name ?b))
      = [0x42, 0x65, 0x6e, 0x63, 0x68, 0x6d, 0x61, 0x72, 0x6b, 0x44, 0x65, 0x6c, 0x69, 0x76,
         0x65, 0x72, 0x79, 0, 0, 0]"
    by (simp add: test_B_def Rep_test_Sum replicate_3)
  have enc: "EncodeToString
      [0x42, 0x65, 0x6e, 0x63, 0x68, 0x6d, 0x61, 0x72, 0x6b, 0x44, 0x65, 0x6c, 0x69, 0x76,
       0x65, 0x72, 0x79, 0, 0, 0] = ''42656e63686d61726b44656c6976657279000000''"
    by (simp add: hextable_def)
  from t1 have "?id = EncodeToString (Rep_sha1_digest (test_Sum (Name ?b)))"
    by blast
  then have idv: "?id = ''42656e63686d61726b44656c6976657279000000''"
    unfolding rep enc .
  have k: "(9::nat) < 20"
    by simp
  have b9: "Rep_sha1_digest (test_Sum (Name ?b)) ! 9 = 0x44"
    unfolding rep by simp
  from t1 k have "?id ! (2 * 9)
        = ''0123456789abcdef'' ! (unat (Rep_sha1_digest (test_Sum (Name ?b)) ! 9) div 16)
      \<and> ?id ! (2 * 9 + 1)
        = ''0123456789abcdef'' ! (unat (Rep_sha1_digest (test_Sum (Name ?b)) ! 9) mod 16)"
    by blast
  then have n9: "''42656e63686d61726b44656c6976657279000000'' ! (2 * 9)
        = ''0123456789abcdef'' ! (0x44 div 16)
      \<and> ''42656e63686d61726b44656c6976657279000000'' ! (2 * 9 + 1)
        = ''0123456789abcdef'' ! (0x44 mod 16)"
    unfolding idv b9 by simp
  from t1 have dec: "DecodeString ''42656e63686d61726b44656c6976657279000000''
      = Some (Rep_sha1_digest (test_Sum (Name ?b)))"
    unfolding idv by blast
  have "Rep_sha1_digest (test_Sum (Name \<lparr>Name = ''BenchmarkOther'', N = 7\<rparr>))
      \<noteq> Rep_sha1_digest (test_Sum (Name ?b))"
    by (simp add: test_B_def Rep_test_Sum)
  then have ne: "test_Sum (Name \<lparr>Name = ''BenchmarkOther'', N = 7\<rparr>) \<noteq> test_Sum (Name ?b)"
    by (simp add: Rep_sha1_digest_inject)
  from t2 ne
  have d: "ID (fst (RandomMsg test_Sum headerPreamble_literal \<lparr>Name = ''BenchmarkOther'', N = 7\<rparr>))
      \<noteq> ?id"
    by blast
  from t1 nm
  have sm: "ID (fst (RandomMsg test_Sum (rev headerPreamble_literal)
        \<lparr>Name = ''BenchmarkDelivery'', N = 7\<rparr>)) = ?id"
    by blast
  from t1 have fl: "DontTraceSender (fst (RandomMsg test_Sum headerPreamble_literal ?b))"
    by blast
  from nm sm idv k b9 n9 dec ne d fl show ?thesis
    by (simp only: simp_thms)
qed

lemma range_order_headerPreamble_length:
  "range_order headerPreamble ord \<Longrightarrow> length ord = 9"
  by (simp add: range_order_length card_dom_headerPreamble)

text \<open>
  Claim C7. Whatever order the map iteration takes, the header \<open>RandomMsg\<close> builds has 29
  fields: first the 9 entries of \<open>headerPreamble\<close> (From, Message-ID, To, Date, Subject,
  Content-Type, MIME-Version, Content-Transfer-Encoding, Received), each once, then the 20
  fields \<open>AAAAAAAAAAAA-0\<close> to \<open>AAAAAAAAAAAA-19\<close>, whose values are 100 characters \<open>A\<close> each. The
  body is a buffer of 100 * 1024 bytes \<open>a\<close>; opening it yields these bytes and leaves the
  buffer as it was, so a second read sees the same bytes.
\<close>

theorem RandomMsg_shape:
  assumes "range_order headerPreamble ord"
  shows "case RandomMsg sha1_Sum ord b of
           (meta, hdr, body) \<Rightarrow>
             length hdr = 9 + 20
             \<and> take 9 hdr = ord
             \<and> distinct (map fst (take 9 hdr))
             \<and> map_of (take 9 hdr) = headerPreamble
             \<and> set (map fst (take 9 hdr)) =
                 {''From'', ''Message-ID'', ''To'', ''Date'', ''Subject'', ''Content-Type'',
                  ''MIME-Version'', ''Content-Transfer-Encoding'', ''Received''}
             \<and> drop 9 hdr =
                 map (\<lambda>i. (''AAAAAAAAAAAA-'' @ Itoa i, replicate 100 CHR ''A'')) [0..<20]
             \<and> list_all (\<lambda>(k, v). length v = 100) (drop 9 hdr)
             \<and> Slice body = replicate (100 * 1024) CHR ''a''
             \<and> length (Slice body) = 100 * 1024
             \<and> Open body = (Slice body, body)
             \<and> fst (Open (snd (Open body))) = fst (Open body)"
proof -
  have len: "length ord = 9"
    using assms by (rule range_order_headerPreamble_length)
  have dist: "distinct (map fst ord)" and mo: "map_of ord = headerPreamble"
    using assms by (simp_all add: range_order_def)
  have keys: "set (map fst ord) = dom headerPreamble"
    using mo by (simp add: dom_map_of_conv_image_fst [symmetric])
  show ?thesis
    using len dist mo keys
    by (simp add: RandomMsg_eq dom_headerPreamble ExtraMessageHeaderFields_def
        ExtraMessageHeaderFieldSize_def MessageBodySize_def Open_def list_all_iff)
qed

theorem RandomMsg_shape_witness:
  "range_order headerPreamble (rev headerPreamble_literal)
   \<and> (case RandomMsg test_Sum (rev headerPreamble_literal) (test_B 1) of
         (meta, hdr, body) \<Rightarrow>
           length hdr = 29
           \<and> map fst (take 9 hdr) =
               [''Received'', ''Content-Transfer-Encoding'', ''MIME-Version'', ''Content-Type'',
                ''Subject'', ''Date'', ''To'', ''Message-ID'', ''From'']
           \<and> hdr ! 9 = (''AAAAAAAAAAAA-0'', replicate 100 CHR ''A'')
           \<and> hdr ! 28 = (''AAAAAAAAAAAA-19'', replicate 100 CHR ''A'')
           \<and> length (Slice body) = 102400)"
proof -
  have h: "range_order headerPreamble (rev headerPreamble_literal)"
    by (rule range_order_rev)
  obtain meta hdr body
    where r: "RandomMsg test_Sum (rev headerPreamble_literal) (test_B 1) = (meta, hdr, body)"
    by (cases "RandomMsg test_Sum (rev headerPreamble_literal) (test_B 1)")
  from RandomMsg_shape [OF h, of test_Sum "test_B 1"] r
  have len: "length hdr = 9 + 20"
    and pre: "take 9 hdr = rev headerPreamble_literal"
    and ext: "drop 9 hdr = map (\<lambda>i. (''AAAAAAAAAAAA-'' @ Itoa i, replicate 100 CHR ''A'')) [0..<20]"
    and bod: "length (Slice body) = 100 * 1024"
    by simp_all
  have i0: "Itoa 0 = ''0''" and i19: "Itoa 19 = ''19''"
    by (simp_all add: Itoa.simps digit_def)
  have "hdr ! (9 + 0) = drop 9 hdr ! 0" and "hdr ! (9 + 19) = drop 9 hdr ! 19"
    using len by simp_all
  then have n9: "hdr ! 9 = (''AAAAAAAAAAAA-0'', replicate 100 CHR ''A'')"
    and n28: "hdr ! 28 = (''AAAAAAAAAAAA-19'', replicate 100 CHR ''A'')"
    by (simp_all add: ext i0 i19)
  have keys: "map fst (take 9 hdr) =
      [''Received'', ''Content-Transfer-Encoding'', ''MIME-Version'', ''Content-Type'',
       ''Subject'', ''Date'', ''To'', ''Message-ID'', ''From'']"
    by (simp add: pre headerPreamble_literal_def)
  show ?thesis
    unfolding r using h len bod by (simp add: n9 n28 keys)
qed

text \<open>
  Claim C10. Any two runs of \<open>RandomMsg\<close> on a benchmark of one name return the same metadata
  and the same body, the same 20 synthetic header fields, and the same nine preamble fields
  as a set; each run's header starts with the preamble fields in the order its own map
  iteration took. That order is not fixed: two admissible iteration orders exist under which
  the headers differ.
\<close>

theorem RandomMsg_determinism:
  "(\<forall>ord1 ord2. range_order headerPreamble ord1 \<and> range_order headerPreamble ord2 \<longrightarrow>
      fst (RandomMsg sha1_Sum ord1 b) = fst (RandomMsg sha1_Sum ord2 b)
      \<and> snd (snd (RandomMsg sha1_Sum ord1 b)) = snd (snd (RandomMsg sha1_Sum ord2 b))
      \<and> drop 9 (fst (snd (RandomMsg sha1_Sum ord1 b))) = drop 9 (fst (snd (RandomMsg sha1_Sum ord2 b)))
      \<and> set (take 9 (fst (snd (RandomMsg sha1_Sum ord1 b))))
          = set (take 9 (fst (snd (RandomMsg sha1_Sum ord2 b))))
      \<and> take 9 (fst (snd (RandomMsg sha1_Sum ord1 b))) = ord1
      \<and> take 9 (fst (snd (RandomMsg sha1_Sum ord2 b))) = ord2)
   \<and> (\<exists>ord1 ord2. range_order headerPreamble ord1 \<and> range_order headerPreamble ord2
        \<and> fst (snd (RandomMsg sha1_Sum ord1 b)) \<noteq> fst (snd (RandomMsg sha1_Sum ord2 b)))"
proof (intro conjI allI impI)
  fix ord1 ord2
  assume a: "range_order headerPreamble ord1 \<and> range_order headerPreamble ord2"
  then have l1: "length ord1 = 9" and l2: "length ord2 = 9"
    by (simp_all add: range_order_headerPreamble_length)
  have "map_of ord1 = map_of ord2" using a by (simp add: range_order_def)
  moreover have "distinct (map fst ord1)" "distinct (map fst ord2)"
    using a by (simp_all add: range_order_def)
  ultimately have s: "set ord1 = set ord2"
    by (simp add: map_of_inject_set)
  show "fst (RandomMsg sha1_Sum ord1 b) = fst (RandomMsg sha1_Sum ord2 b)"
    by (simp add: RandomMsg_eq)
  show "snd (snd (RandomMsg sha1_Sum ord1 b)) = snd (snd (RandomMsg sha1_Sum ord2 b))"
    by (simp add: RandomMsg_eq)
  show "drop 9 (fst (snd (RandomMsg sha1_Sum ord1 b))) = drop 9 (fst (snd (RandomMsg sha1_Sum ord2 b)))"
    using l1 l2 by (simp add: RandomMsg_eq)
  show "take 9 (fst (snd (RandomMsg sha1_Sum ord1 b))) = ord1"
    using l1 by (simp add: RandomMsg_eq)
  show "take 9 (fst (snd (RandomMsg sha1_Sum ord2 b))) = ord2"
    using l2 by (simp add: RandomMsg_eq)
  show "set (take 9 (fst (snd (RandomMsg sha1_Sum ord1 b))))
          = set (take 9 (fst (snd (RandomMsg sha1_Sum ord2 b))))"
    using l1 l2 s by (simp add: RandomMsg_eq)
next
  have "fst (snd (RandomMsg sha1_Sum headerPreamble_literal b))
      \<noteq> fst (snd (RandomMsg sha1_Sum (rev headerPreamble_literal) b))"
    by (simp add: RandomMsg_eq headerPreamble_literal_def)
  then show "\<exists>ord1 ord2. range_order headerPreamble ord1 \<and> range_order headerPreamble ord2
        \<and> fst (snd (RandomMsg sha1_Sum ord1 b)) \<noteq> fst (snd (RandomMsg sha1_Sum ord2 b))"
    using range_order_literal range_order_rev by blast
qed

theorem RandomMsg_determinism_witness:
  "range_order headerPreamble headerPreamble_literal
   \<and> range_order headerPreamble (rev headerPreamble_literal)
   \<and> fst (RandomMsg test_Sum headerPreamble_literal (test_B 1))
       = fst (RandomMsg test_Sum (rev headerPreamble_literal) (test_B 1))
   \<and> snd (snd (RandomMsg test_Sum headerPreamble_literal (test_B 1)))
       = snd (snd (RandomMsg test_Sum (rev headerPreamble_literal) (test_B 1)))
   \<and> map fst (take 2 (fst (snd (RandomMsg test_Sum headerPreamble_literal (test_B 1)))))
       = [''From'', ''Message-ID'']
   \<and> map fst (take 2 (fst (snd (RandomMsg test_Sum (rev headerPreamble_literal) (test_B 1)))))
       = [''Received'', ''Content-Transfer-Encoding'']"
proof -
  have h1: "range_order headerPreamble headerPreamble_literal"
    by (rule range_order_literal)
  have h2: "range_order headerPreamble (rev headerPreamble_literal)"
    by (rule range_order_rev)
  have t1: "map fst (take 2 (take 9 (fst (snd (RandomMsg test_Sum headerPreamble_literal (test_B 1))))))
       = [''From'', ''Message-ID'']"
    using RandomMsg_determinism [of test_Sum "test_B 1", THEN conjunct1, rule_format, OF conjI, OF h1 h2]
    by (simp add: headerPreamble_literal_def)
  have t2: "map fst (take 2 (take 9 (fst (snd (RandomMsg test_Sum (rev headerPreamble_literal) (test_B 1))))))
       = [''Received'', ''Content-Transfer-Encoding'']"
    using RandomMsg_determinism [of test_Sum "test_B 1", THEN conjunct1, rule_format, OF conjI, OF h1 h2]
    by (simp add: headerPreamble_literal_def)
  show ?thesis
    using h1 h2 t1 t2
      RandomMsg_determinism [of test_Sum "test_B 1", THEN conjunct1, rule_format, OF conjI, OF h1 h2]
    by simp
qed

section \<open>Properties of the partial-status collector\<close>

lemma SetStatus_calls_Cons:
  "SetStatus_calls ((rcptTo, err) # calls) m = SetStatus_calls calls (m(rcptTo \<mapsto> err))"
  by (simp add: SetStatus_calls_def SetStatus_def)

lemma SetStatus_calls_Nil: "SetStatus_calls [] m = m"
  by (simp add: SetStatus_calls_def)

lemma SetStatus_calls_other:
  "rcptTo \<notin> fst ` set calls \<Longrightarrow> SetStatus_calls calls m rcptTo = m rcptTo"
proof (induction calls arbitrary: m)
  case Nil
  show ?case by (simp add: SetStatus_calls_Nil)
next
  case (Cons c calls)
  obtain r e where c: "c = (r, e)" by (cases c)
  with Cons.prems have "r \<noteq> rcptTo" and "rcptTo \<notin> fst ` set calls" by auto
  then show ?case by (simp add: c SetStatus_calls_Cons Cons.IH)
qed

lemma dom_SetStatus_calls: "dom (SetStatus_calls calls m) = dom m \<union> fst ` set calls"
proof (induction calls arbitrary: m)
  case Nil
  show ?case by (simp add: SetStatus_calls_Nil)
next
  case (Cons c calls)
  obtain r e where c: "c = (r, e)" by (cases c)
  show ?case by (auto simp: c SetStatus_calls_Cons Cons.IH)
qed

lemma SetStatus_calls_lookup:
  "distinct (map fst calls) \<Longrightarrow> (rcptTo, err) \<in> set calls
    \<Longrightarrow> SetStatus_calls calls m rcptTo = Some err"
proof (induction calls arbitrary: m)
  case Nil
  then show ?case by simp
next
  case (Cons c calls)
  obtain r e where c: "c = (r, e)" by (cases c)
  from Cons.prems have d: "distinct (map fst calls)" and nin: "r \<notin> fst ` set calls"
    by (simp_all add: c)
  show ?case
  proof (cases "(rcptTo, err) \<in> set calls")
    case True
    then show ?thesis by (simp add: c SetStatus_calls_Cons Cons.IH [OF d])
  next
    case False
    with Cons.prems have "rcptTo = r" and "err = e" by (simp_all add: c)
    then show ?thesis using nin by (simp add: c SetStatus_calls_Cons SetStatus_calls_other)
  qed
qed

text \<open>
  Claim C8. When \<open>SetStatus\<close> is called once for each of N different recipients on an empty
  collector, the collector then has these N recipients as its keys and no other key, so N
  entries, and each recipient maps to the outcome (an error or \<open>nil\<close>) reported for it.
\<close>

theorem SetStatus_once_per_recipient:
  assumes "distinct (map fst calls)"
  shows "dom (SetStatus_calls calls Map.empty) = set (map fst calls)
         \<and> card (dom (SetStatus_calls calls Map.empty)) = length calls
         \<and> list_all (\<lambda>(rcptTo, err). SetStatus_calls calls Map.empty rcptTo = Some err) calls"
proof -
  have d: "dom (SetStatus_calls calls Map.empty) = set (map fst calls)"
    by (simp add: dom_SetStatus_calls)
  have "card (set (map fst calls)) = length (map fst calls)"
    using assms by (rule distinct_card)
  then have c: "card (dom (SetStatus_calls calls Map.empty)) = length calls"
    by (simp only: d length_map)
  have l: "list_all (\<lambda>(rcptTo, err). SetStatus_calls calls Map.empty rcptTo = Some err) calls"
    using SetStatus_calls_lookup [OF assms] by (auto simp: list_all_iff)
  from d c l show ?thesis by blast
qed

theorem SetStatus_once_per_recipient_witness:
  "distinct (map fst [(''b1@example.org'', None), (''b2@example.org'', Some (Error ''no such user'')),
       (''b3@example.org'', None)])
   \<and> dom (SetStatus_calls [(''b1@example.org'', None),
         (''b2@example.org'', Some (Error ''no such user'')), (''b3@example.org'', None)] Map.empty)
       = {''b1@example.org'', ''b2@example.org'', ''b3@example.org''}
   \<and> card (dom (SetStatus_calls [(''b1@example.org'', None),
         (''b2@example.org'', Some (Error ''no such user'')), (''b3@example.org'', None)] Map.empty))
       = 3
   \<and> SetStatus_calls [(''b1@example.org'', None),
         (''b2@example.org'', Some (Error ''no such user'')), (''b3@example.org'', None)] Map.empty
         ''b2@example.org'' = Some (Some (Error ''no such user''))
   \<and> SetStatus_calls [(''b1@example.org'', None),
         (''b2@example.org'', Some (Error ''no such user'')), (''b3@example.org'', None)] Map.empty
         ''b3@example.org'' = Some None"
proof -
  have h: "distinct (map fst [(''b1@example.org'', None :: error option),
      (''b2@example.org'', Some (Error ''no such user'')), (''b3@example.org'', None)])"
    by simp
  show ?thesis
    using h SetStatus_once_per_recipient [OF h] by auto
qed

section \<open>Properties of the recipient addresses\<close>

lemma Itoa_0: "Itoa 0 = ''0''" and Itoa_1: "Itoa (Suc 0) = ''1''"
  by (simp_all add: Itoa.simps digit_def)

lemma upt_2: "[0..<2] = [0, 1]"
  by (simp add: upt_rec)

lemma digit_inj: "a < 10 \<Longrightarrow> b < 10 \<Longrightarrow> digit a = digit b \<Longrightarrow> a = b"
proof -
  assume a: "a < 10" and b: "b < 10" and e: "digit a = digit b"
  have "distinct ''0123456789''" by simp
  moreover have "a < length ''0123456789''" "b < length ''0123456789''" using a b by simp_all
  ultimately have "(''0123456789'' ! a = ''0123456789'' ! b) = (a = b)"
    by (rule nth_eq_iff_index_eq)
  with e show ?thesis by (simp add: digit_def)
qed

lemma Itoa_not_Nil: "Itoa n \<noteq> []"
  by (subst Itoa.simps) simp

lemma Itoa_inj: "Itoa n = Itoa m \<Longrightarrow> n = m"
proof (induction n arbitrary: m rule: Itoa.induct)
  case (1 n)
  show ?case
  proof (cases "n < 10")
    case True
    show ?thesis
    proof (cases "m < 10")
      case mt: True
      from "1.prems" True mt have "digit n = digit m"
        by (simp add: Itoa.simps [of n] Itoa.simps [of m])
      then show ?thesis using True mt by (rule digit_inj [rotated 2])
    next
      case False
      with "1.prems" True have "[digit n] = Itoa (m div 10) @ [digit (m mod 10)]"
        by (simp add: Itoa.simps [of n] Itoa.simps [of m])
      then have "Itoa (m div 10) = []" by simp
      then show ?thesis by (simp add: Itoa_not_Nil)
    qed
  next
    case False
    show ?thesis
    proof (cases "m < 10")
      case True
      with "1.prems" False have "Itoa (n div 10) @ [digit (n mod 10)] = [digit m]"
        by (simp add: Itoa.simps [of n] Itoa.simps [of m])
      then have "Itoa (n div 10) = []" by simp
      then show ?thesis by (simp add: Itoa_not_Nil)
    next
      case mf: False
      from "1.prems" False mf
      have "Itoa (n div 10) @ [digit (n mod 10)] = Itoa (m div 10) @ [digit (m mod 10)]"
        by (simp add: Itoa.simps [of n] Itoa.simps [of m])
      then have q: "Itoa (n div 10) = Itoa (m div 10)" and r: "digit (n mod 10) = digit (m mod 10)"
        by simp_all
      from q have "n div 10 = m div 10" using False by (rule "1.IH" [rotated])
      moreover have "n mod 10 = m mod 10"
        using r by (intro digit_inj) simp_all
      ultimately show ?thesis by (metis div_mult_mod_eq)
    qed
  qed
qed

lemma length_Replace:
  "length (Replace t c new) =
     length (filter (\<lambda>x. x \<noteq> c) t) + length (filter (\<lambda>x. x = c) t) * length new"
  by (induction t) simp_all

lemma Replace_inj_same_length:
  "c \<in> set t \<Longrightarrow> length new = length new' \<Longrightarrow> Replace t c new = Replace t c new'
    \<Longrightarrow> new = new'"
  by (induction t) (auto split: if_splits)

lemma Replace_inj:
  assumes "c \<in> set t" and "Replace t c new = Replace t c new'"
  shows "new = new'"
proof -
  let ?k = "length (filter (\<lambda>x. x = c) t)"
  have k: "0 < ?k" using assms(1) by (simp add: filter_empty_conv)
  have "length (Replace t c new) = length (Replace t c new')" using assms(2) by simp
  then have "?k * length new = ?k * length new'" by (simp add: length_Replace)
  with k have l: "length new = length new'" by simp
  from assms(1) l assms(2) show ?thesis by (rule Replace_inj_same_length)
qed


lemma AddRcpt_rcpt_nonempty:
  "recipientTemplates \<noteq> [] \<Longrightarrow>
    AddRcpt_rcpt recipientTemplates i =
      Inr (Replace (recipientTemplates ! (i mod length recipientTemplates)) CHR ''X'' (Itoa i))"
  by (simp add: AddRcpt_rcpt_def go_mod_def index_def)

lemma AddRcpt_rcpt_empty: "AddRcpt_rcpt [] i = Inl DivideByZero"
  by (simp add: AddRcpt_rcpt_def go_mod_def)

lemma AddRcpt_loop_calls:
  "recipientTemplates \<noteq> [] \<Longrightarrow>
    AddRcpt_loop target delivery recipientTemplates is s = (r, tr, s') \<Longrightarrow>
    AddRcpt_calls tr =
      map (\<lambda>i. Replace (recipientTemplates ! (i mod length recipientTemplates)) CHR ''X'' (Itoa i))
        (take (length tr) is)
    \<and> (r = Finished \<longrightarrow> length tr = length is)"
proof (induction "is" arbitrary: s r tr s')
  case Nil
  then show ?case by simp
next
  case (Cons i "is")
  let ?rcpt = "Replace (recipientTemplates ! (i mod length recipientTemplates)) CHR ''X'' (Itoa i)"
  obtain e s1 where a: "AddRcpt target delivery ?rcpt s = (e, s1)"
    by (cases "AddRcpt target delivery ?rcpt s")
  show ?case
  proof (cases e)
    case (Some err)
    with Cons.prems a show ?thesis
      by (auto simp: AddRcpt_rcpt_nonempty)
  next
    case None
    obtain r2 tr2 s2 where l: "AddRcpt_loop target delivery recipientTemplates is s1 = (r2, tr2, s2)"
      by (cases "AddRcpt_loop target delivery recipientTemplates is s1")
    from Cons.IH [OF Cons.prems(1) l] Cons.prems a None l show ?thesis
      by (auto simp: AddRcpt_rcpt_nonempty)
  qed
qed

lemma AddRcpt_loop_not_Panicked:
  "AddRcpt_loop target delivery recipientTemplates is s = (r, tr, s') \<Longrightarrow>
    recipientTemplates \<noteq> [] \<Longrightarrow> r \<noteq> Panicked p"
  by (induction "is" arbitrary: s r tr s')
    (auto simp: AddRcpt_rcpt_nonempty split: prod.splits option.splits)

text \<open>
  Claim C4, as amended. In the AddRcpt phase the recipient of iteration \<open>i\<close> is the template
  \<open>recipientTemplates[i mod len(recipientTemplates)]\<close> with every \<open>X\<close> replaced by the
  decimal digits of \<open>i\<close>: these are, in order, the addresses of the \<open>AddRcpt\<close> calls of the
  loop, all \<open>b.N\<close> of them when the loop finishes. Two different iterations that use the same
  template add different addresses when that template contains an \<open>X\<close>; with a single
  template this holds of any two iterations.
\<close>

theorem AddRcpt_rcpt_distinct_per_template:
  "(recipientTemplates \<noteq> [] \<longrightarrow>
      AddRcpt_rcpt recipientTemplates i =
        Inr (Replace (recipientTemplates ! (i mod length recipientTemplates)) CHR ''X'' (Itoa i)))
   \<and> (recipientTemplates \<noteq> []
        \<and> AddRcpt_loop target delivery recipientTemplates [0..<n] s = (Finished, tr, s') \<longrightarrow>
      AddRcpt_calls tr =
        map (\<lambda>i. Replace (recipientTemplates ! (i mod length recipientTemplates)) CHR ''X'' (Itoa i))
          [0..<n])
   \<and> (recipientTemplates \<noteq> [] \<and> i \<noteq> j
        \<and> i mod length recipientTemplates = j mod length recipientTemplates
        \<and> CHR ''X'' \<in> set (recipientTemplates ! (i mod length recipientTemplates)) \<longrightarrow>
      AddRcpt_rcpt recipientTemplates i \<noteq> AddRcpt_rcpt recipientTemplates j)
   \<and> (i \<noteq> j \<and> CHR ''X'' \<in> set rcptTemplate \<longrightarrow>
      AddRcpt_rcpt [rcptTemplate] i \<noteq> AddRcpt_rcpt [rcptTemplate] j)"
proof (intro conjI impI)
  assume "recipientTemplates \<noteq> []"
  then show "AddRcpt_rcpt recipientTemplates i =
      Inr (Replace (recipientTemplates ! (i mod length recipientTemplates)) CHR ''X'' (Itoa i))"
    by (rule AddRcpt_rcpt_nonempty)
next
  assume a: "recipientTemplates \<noteq> []
    \<and> AddRcpt_loop target delivery recipientTemplates [0..<n] s = (Finished, tr, s')"
  then have ne: "recipientTemplates \<noteq> []"
    and l: "AddRcpt_loop target delivery recipientTemplates [0..<n] s = (Finished, tr, s')"
    by simp_all
  from AddRcpt_loop_calls [OF ne l]
  show "AddRcpt_calls tr =
      map (\<lambda>i. Replace (recipientTemplates ! (i mod length recipientTemplates)) CHR ''X'' (Itoa i))
        [0..<n]"
    by simp
next
  assume a: "recipientTemplates \<noteq> [] \<and> i \<noteq> j
    \<and> i mod length recipientTemplates = j mod length recipientTemplates
    \<and> CHR ''X'' \<in> set (recipientTemplates ! (i mod length recipientTemplates))"
  show "AddRcpt_rcpt recipientTemplates i \<noteq> AddRcpt_rcpt recipientTemplates j"
  proof
    assume "AddRcpt_rcpt recipientTemplates i = AddRcpt_rcpt recipientTemplates j"
    with a have "Replace (recipientTemplates ! (i mod length recipientTemplates)) CHR ''X'' (Itoa i)
        = Replace (recipientTemplates ! (i mod length recipientTemplates)) CHR ''X'' (Itoa j)"
      by (simp add: AddRcpt_rcpt_nonempty)
    with a have "Itoa i = Itoa j" by (blast intro: Replace_inj)
    then have "i = j" by (rule Itoa_inj)
    with a show False by simp
  qed
next
  assume a: "i \<noteq> j \<and> CHR ''X'' \<in> set rcptTemplate"
  show "AddRcpt_rcpt [rcptTemplate] i \<noteq> AddRcpt_rcpt [rcptTemplate] j"
  proof
    assume "AddRcpt_rcpt [rcptTemplate] i = AddRcpt_rcpt [rcptTemplate] j"
    then have "Replace rcptTemplate CHR ''X'' (Itoa i) = Replace rcptTemplate CHR ''X'' (Itoa j)"
      by (simp add: AddRcpt_rcpt_nonempty)
    with a have "Itoa i = Itoa j" by (blast intro: Replace_inj)
    then have "i = j" by (rule Itoa_inj)
    with a show False by simp
  qed
qed

lemma two_iterations:
  "AddRcpt_loop (testTarget 5 [] False) (Delivery 0 False) [''bX@example.org'', ''cX@example.org'']
      [0..<2] \<lparr>next_handle = 1, accepted = []\<rparr>
    = (Finished,
       [EvAddRcpt (Delivery 0 False) ''b0@example.org'',
        EvAddRcpt (Delivery 0 False) ''c1@example.org''],
       \<lparr>next_handle = 1, accepted = [(0, ''b0@example.org''), (0, ''c1@example.org'')]\<rparr>)"
  by (simp add: upt_2 AddRcpt_rcpt_nonempty testTarget_def Itoa_0 Itoa_1)

theorem AddRcpt_rcpt_distinct_per_template_witness:
  "[''bX@example.org'', ''cX@example.org''] \<noteq> [] \<and> (3::nat) \<noteq> 13
   \<and> 3 mod length [''bX@example.org'', ''cX@example.org'']
       = 13 mod length [''bX@example.org'', ''cX@example.org'']
   \<and> CHR ''X'' \<in> set ([''bX@example.org'', ''cX@example.org'']
         ! (3 mod length [''bX@example.org'', ''cX@example.org'']))
   \<and> AddRcpt_rcpt [''bX@example.org'', ''cX@example.org''] 3 = Inr ''c3@example.org''
   \<and> AddRcpt_rcpt [''bX@example.org'', ''cX@example.org''] 13 = Inr ''c13@example.org''
   \<and> AddRcpt_rcpt [''bX@example.org'', ''cX@example.org''] 3
       \<noteq> AddRcpt_rcpt [''bX@example.org'', ''cX@example.org''] 13
   \<and> CHR ''X'' \<in> set ''bX@example.org''
   \<and> AddRcpt_rcpt [''bX@example.org''] 3 \<noteq> AddRcpt_rcpt [''bX@example.org''] 13
   \<and> AddRcpt_calls
        [EvAddRcpt (Delivery 0 False) ''b0@example.org'',
         EvAddRcpt (Delivery 0 False) ''c1@example.org'']
       = map (\<lambda>i. Replace ([''bX@example.org'', ''cX@example.org'']
                ! (i mod length [''bX@example.org'', ''cX@example.org''])) CHR ''X'' (Itoa i))
           [0..<2]"
proof -
  let ?ts = "[''bX@example.org'', ''cX@example.org'']"
  have e3: "AddRcpt_rcpt ?ts 3 = Inr ''c3@example.org''"
    and e13: "AddRcpt_rcpt ?ts 13 = Inr ''c13@example.org''"
    by code_simp+
  have m: "3 mod length ?ts = 13 mod length ?ts"
    by code_simp
  have x: "CHR ''X'' \<in> set (?ts ! (3 mod length ?ts))"
    by code_simp
  have x1: "CHR ''X'' \<in> set ''bX@example.org''"
    by simp
  have h: "?ts \<noteq> [] \<and> (3::nat) \<noteq> 13 \<and> 3 mod length ?ts = 13 mod length ?ts
      \<and> CHR ''X'' \<in> set (?ts ! (3 mod length ?ts))"
    using m x by simp
  have h1: "(3::nat) \<noteq> 13 \<and> CHR ''X'' \<in> set ''bX@example.org''"
    by simp
  have h2: "?ts \<noteq> []
      \<and> AddRcpt_loop (testTarget 5 [] False) (Delivery 0 False) ?ts [0..<2]
          \<lparr>next_handle = 1, accepted = []\<rparr>
        = (Finished,
           [EvAddRcpt (Delivery 0 False) ''b0@example.org'',
            EvAddRcpt (Delivery 0 False) ''c1@example.org''],
           \<lparr>next_handle = 1, accepted = [(0, ''b0@example.org''), (0, ''c1@example.org'')]\<rparr>)"
    using two_iterations by simp
  note t = AddRcpt_rcpt_distinct_per_template [of ?ts 3 "testTarget 5 [] False"
      "Delivery 0 False" 2 "\<lparr>next_handle = 1, accepted = []\<rparr>"
      "[EvAddRcpt (Delivery 0 False) ''b0@example.org'',
        EvAddRcpt (Delivery 0 False) ''c1@example.org'']"
      "\<lparr>next_handle = 1, accepted = [(0, ''b0@example.org''), (0, ''c1@example.org'')]\<rparr>"
      13 "''bX@example.org''"]
  have d: "AddRcpt_rcpt ?ts 3 \<noteq> AddRcpt_rcpt ?ts 13"
    using t [THEN conjunct2, THEN conjunct2, THEN conjunct1, rule_format, OF h] .
  have d1: "AddRcpt_rcpt [''bX@example.org''] 3 \<noteq> AddRcpt_rcpt [''bX@example.org''] 13"
    using t [THEN conjunct2, THEN conjunct2, THEN conjunct2, rule_format, OF h1] .
  have d2: "AddRcpt_calls
        [EvAddRcpt (Delivery 0 False) ''b0@example.org'',
         EvAddRcpt (Delivery 0 False) ''c1@example.org'']
       = map (\<lambda>i. Replace (?ts ! (i mod length ?ts)) CHR ''X'' (Itoa i)) [0..<2]"
    using t [THEN conjunct2, THEN conjunct1, rule_format, OF h2] .
  from h d d1 d2 e3 e13 x1 show ?thesis by blast
qed

text \<open>
  The claim as the spec has it fails: with the templates \<open>X\<close> and \<open>X0\<close>, which both contain
  the placeholder, iterations 1 and 10 add the same address \<open>10\<close>.
\<close>

theorem AddRcpt_rcpt_duplicate:
  "CHR ''X'' \<in> set ''X'' \<and> CHR ''X'' \<in> set ''X0'' \<and> (1::nat) \<noteq> 10
   \<and> AddRcpt_rcpt [''X'', ''X0''] 1 = Inr ''10''
   \<and> AddRcpt_rcpt [''X'', ''X0''] 10 = Inr ''10''"
  by code_simp

lemma leak_Full_eq:
  "leak_Full = (Fatal (Error ''recipient rejected''),
     [EvStart (Delivery 0 False), EvAddRcpt (Delivery 0 False) ''b0@example.org''],
     \<lparr>next_handle = 1, accepted = []\<rparr>)"
  by (simp add: leak_Full_def BenchDelivery_Full_def RandomMsg_eq test_B_def testTarget_def
      backend0_def enumerate_eq_zip Itoa_0)

lemma leak_Start_eq:
  "leak_Start = (Fatal (Error ''no more deliveries''),
     [EvStart (Delivery 0 False), EvStartErr (Error ''no more deliveries'')],
     \<lparr>next_handle = 1, accepted = []\<rparr>)"
  by (simp add: leak_Start_def BenchDelivery_Start_def RandomMsg_eq test_B_def testTarget_def
      backend0_def upt_2)


section \<open>Properties of the driver\<close>

subsection \<open>The events of each loop\<close>

lemma AddRcpt_only_Body_calls: "list_all is_AddRcpt tr \<Longrightarrow> Body_calls tr = []"
  by (induction tr rule: Body_calls.induct) simp_all

lemma AddRcpt_only_collectors: "list_all is_AddRcpt tr \<Longrightarrow> collectors tr = []"
  by (induction tr rule: collectors.induct) simp_all


lemma AddRcpt_only_starts: "list_all is_AddRcpt tr \<Longrightarrow> filter (is_Start d) tr = []"
  by (induction tr) (auto elim: is_AddRcpt.elims)

lemma AddRcpt_only_terminals: "list_all is_AddRcpt tr \<Longrightarrow> filter (is_terminal d) tr = []"
  by (induction tr) (auto elim: is_AddRcpt.elims)

lemma AddRcpt_only_Body_at_most_once:
  "list_all is_AddRcpt tr \<Longrightarrow> Body_at_most_once seen (tr @ tr') = Body_at_most_once seen tr'"
  by (induction tr) (auto elim: is_AddRcpt.elims)

lemma AddRcpt_only_collector_chain:
  "list_all is_AddRcpt tr \<Longrightarrow> collector_chain m (tr @ tr') = collector_chain m tr'"
  by (induction tr) (auto elim: is_AddRcpt.elims)

lemma Body_calls_append: "Body_calls (tr @ tr') = Body_calls tr @ Body_calls tr'"
  by (induction tr rule: Body_calls.induct) simp_all

lemma collectors_append: "collectors (tr @ tr') = collectors tr @ collectors tr'"
  by (induction tr rule: collectors.induct) simp_all


lemma range_loop_events:
  "range_loop target delivery ps s = (r, tr, s') \<Longrightarrow>
    list_all is_AddRcpt tr \<and> r \<noteq> Panicked p \<and> (\<forall>why. r \<noteq> Skipped why)"
  by (induction ps arbitrary: s r tr s')
    (auto simp: Let_def split: prod.splits option.splits)

lemma AddRcpt_loop_events:
  "AddRcpt_loop target delivery recipientTemplates is s = (r, tr, s') \<Longrightarrow> list_all is_AddRcpt tr"
  by (induction "is" arbitrary: s r tr s')
    (auto split: prod.splits option.splits sum.splits)

lemma Body_loop_events:
  "Body_loop target delivery header body is s = (r, tr, s') \<Longrightarrow>
    Body_calls tr = replicate (length tr) (delivery, header, body)
    \<and> length tr \<le> length is \<and> (r = Finished \<longrightarrow> length tr = length is)
    \<and> (\<forall>d. filter (is_Start d) tr = [] \<and> filter (is_terminal d) tr = [])
    \<and> collectors tr = [] \<and> BodyNonAtomic_deliveries tr = []"
  by (induction "is" arbitrary: s r tr s')
    (auto split: prod.splits option.splits)

lemma BodyNonAtomic_loop_events:
  "BodyNonAtomic_loop target delivery sc header body is s = (r, tr, s') \<Longrightarrow>
    Body_calls tr = [] \<and> r = Finished \<and> length (collectors tr) = length is
    \<and> (\<forall>d. filter (is_Start d) tr = [] \<and> filter (is_terminal d) tr = [])
    \<and> BodyNonAtomic_deliveries tr = replicate (length is) delivery
    \<and> collector_chain sc tr"
  by (induction "is" arbitrary: s sc r tr s')
    (auto split: prod.splits)

lemma Abort_loop_events:
  "Abort_loop target deliveries s = (tr, s') \<Longrightarrow>
    tr = map EvAbort deliveries"
  by (induction deliveries arbitrary: s tr s') (auto split: prod.splits)

lemma Start_loop_no_other_events:
  "Start_loop target meta sender is deliveries s = (r, ds, tr, s') \<Longrightarrow>
    Body_calls tr = [] \<and> collectors tr = [] \<and> BodyNonAtomic_deliveries tr = []"
  by (induction "is" arbitrary: deliveries s r ds tr s')
    (auto split: prod.splits sum.splits)

lemma Start_loop_Finished:
  "Start_loop target meta sender is deliveries s = (Finished, ds, tr, s') \<Longrightarrow>
    \<exists>new. ds = deliveries @ new \<and> tr = map EvStart new"
proof (induction "is" arbitrary: deliveries s ds tr s')
  case Nil
  then show ?case by simp
next
  case (Cons i "is")
  obtain res s1 where st: "Start target meta sender s = (res, s1)"
    by (cases "Start target meta sender s")
  show ?case
  proof (cases res)
    case (Inl err)
    with Cons.prems st show ?thesis by simp
  next
    case (Inr d)
    obtain r2 ds2 tr2 s2
      where l: "Start_loop target meta sender is (deliveries @ [d]) s1 = (r2, ds2, tr2, s2)"
      by (cases "Start_loop target meta sender is (deliveries @ [d]) s1")
    from Cons.prems st Inr l have r2: "r2 = Finished" and ds: "ds = ds2" and tr: "tr = EvStart d # tr2"
      by simp_all
    from Cons.IH [OF l [unfolded r2]] obtain new
      where "ds2 = (deliveries @ [d]) @ new" and "tr2 = map EvStart new"
      by blast
    then have "ds = deliveries @ (d # new) \<and> tr = map EvStart (d # new)"
      by (simp add: ds tr)
    then show ?thesis by blast
  qed
qed


lemma AddRcpt_only_Body_at_most_once_Nil:
  "list_all is_AddRcpt tr \<Longrightarrow> Body_at_most_once seen tr"
  using AddRcpt_only_Body_at_most_once [of tr seen "[]"] by simp

lemma AddRcpt_only_collector_chain_Nil:
  "list_all is_AddRcpt tr \<Longrightarrow> collector_chain m tr"
  using AddRcpt_only_collector_chain [of tr m "[]"] by simp

lemma collector_chain_Abort: "collector_chain m (tr @ [EvAbort d]) = collector_chain m tr"
  by (induction m tr rule: collector_chain.induct) simp_all

subsection \<open>Terminal calls\<close>

lemma AddRcpt_phase_balanced:
  "terminals d (fst (snd (BenchDelivery_AddRcpt sha1_Sum ord b target sender recipientTemplates s)))
    = starts d (fst (snd (BenchDelivery_AddRcpt sha1_Sum ord b target sender recipientTemplates s)))"
  by (auto simp: BenchDelivery_AddRcpt_def RandomMsg_eq deferred_Abort_def starts_def
      terminals_def AddRcpt_only_starts AddRcpt_only_terminals
      split: prod.splits sum.splits dest!: AddRcpt_loop_events)

lemma Body_phase_balanced:
  "terminals d
     (fst (snd (BenchDelivery_Body sha1_Sum ord b target idempotentBody sender recipientTemplates s)))
    = starts d
     (fst (snd (BenchDelivery_Body sha1_Sum ord b target idempotentBody sender recipientTemplates s)))"
  by (auto simp: BenchDelivery_Body_def RandomMsg_eq deferred_Abort_def starts_def
      terminals_def AddRcpt_only_starts AddRcpt_only_terminals
      split: prod.splits sum.splits outcome.splits
      dest!: range_loop_events [where p = undefined] Body_loop_events)

lemma BodyNonAtomic_phase_balanced:
  "terminals d
     (fst (snd (BenchDelivery_BodyNonAtomic sha1_Sum ord b target idempotentBody sender
        recipientTemplates s)))
    = starts d
     (fst (snd (BenchDelivery_BodyNonAtomic sha1_Sum ord b target idempotentBody sender
        recipientTemplates s)))"
  by (auto simp: BenchDelivery_BodyNonAtomic_def RandomMsg_eq deferred_Abort_def starts_def
      terminals_def AddRcpt_only_starts AddRcpt_only_terminals
      split: prod.splits sum.splits outcome.splits
      dest!: range_loop_events [where p = undefined] BodyNonAtomic_loop_events)


lemma Abort_matches_Start: "is_terminal d \<circ> EvAbort = is_Start d \<circ> EvStart"
  by (simp add: fun_eq_iff)

lemma starts_map_EvAbort: "filter (is_Start d) (map EvAbort ds) = []"
  by (induction ds) simp_all

lemma terminals_map_EvStart: "filter (is_terminal d) (map EvStart ds) = []"
  by (induction ds) simp_all

lemma Start_phase_balanced_when_Finished:
  assumes "BenchDelivery_Start sha1_Sum ord b target sender s = (Finished, tr, s')"
  shows "terminals d tr = starts d tr"
proof -
  obtain r ds tr1 s1
    where l: "Start_loop target (fst (RandomMsg sha1_Sum ord b)) sender [0..<N b] [] s
      = (r, ds, tr1, s1)"
    by (cases "Start_loop target (fst (RandomMsg sha1_Sum ord b)) sender [0..<N b] [] s")
  obtain tr2 s2 where a: "Abort_loop target ds s1 = (tr2, s2)"
    by (cases "Abort_loop target ds s1")
  from assms l a have r: "r = Finished" and tr: "tr = tr1 @ tr2"
    by (cases r; simp add: BenchDelivery_Start_def case_prod_beta)+
  from Start_loop_Finished [OF l [unfolded r]] have "tr1 = map EvStart ds"
    by simp
  moreover from a have "tr2 = map EvAbort ds"
    by (rule Abort_loop_events)
  ultimately show ?thesis
    by (simp add: tr starts_def terminals_def starts_map_EvAbort terminals_map_EvStart
        filter_map Abort_matches_Start)
qed

lemma Full_loop_balanced_when_Finished:
  "Full_loop target meta header body sender recipientTemplates is s = (Finished, tr, s') \<Longrightarrow>
    terminals d tr = starts d tr"
proof (induction "is" arbitrary: s tr s')
  case Nil
  then show ?case by (simp add: starts_def terminals_def)
next
  case (Cons i "is")
  obtain res s1 where st: "Start target meta sender s = (res, s1)"
    by (cases "Start target meta sender s")
  show ?case
  proof (cases res)
    case (Inl err)
    with Cons.prems st show ?thesis by simp
  next
    case (Inr dl)
    obtain r1 tr1 s2
      where rl: "range_loop target dl (enumerate 0 recipientTemplates) s1 = (r1, tr1, s2)"
      by (cases "range_loop target dl (enumerate 0 recipientTemplates) s1")
    from range_loop_events [OF rl] have only: "list_all is_AddRcpt tr1"
      by simp
    obtain e3 s3 where bo: "Body target dl header body s2 = (e3, s3)"
      by (cases "Body target dl header body s2")
    obtain e4 s4 where co: "Commit target dl s3 = (e4, s4)"
      by (cases "Commit target dl s3")
    obtain r5 tr5 s5
      where fl: "Full_loop target meta header body sender recipientTemplates is s4 = (r5, tr5, s5)"
      by (cases "Full_loop target meta header body sender recipientTemplates is s4")
    from Cons.prems st Inr rl bo co fl
    have tr: "tr = EvStart dl # tr1 @ [EvBody dl header body, EvCommit dl] @ tr5"
      and r5: "r5 = Finished"
      by (cases r1; cases e3; cases e4; simp)+
    from Cons.IH [OF fl [unfolded r5]] have "terminals d tr5 = starts d tr5" .
    then show ?thesis
      using only
      by (simp add: tr starts_def terminals_def AddRcpt_only_starts AddRcpt_only_terminals)
  qed
qed

text \<open>
  Claim C1. Every \<open>Start\<close> that returns a delivery is to be matched by exactly one terminal
  call on every exit path. The three phases with a deferred \<open>Abort\<close> do so, and the
  Start phase and the Full transaction phase do so when they finish (the lemmas above); on
  their \<open>b.Fatal\<close> exits these two do not. In the Full transaction
  phase with one template \<open>bX@example.org\<close> and a target that rejects \<open>b0@example.org\<close>, the
  first \<open>AddRcpt\<close> fails, \<open>b.Fatal\<close> ends the function, and the delivery that \<open>Start\<close>
  returned gets neither \<open>Commit\<close> nor \<open>Abort\<close>. In the Start phase with \<open>b.N = 2\<close> and a
  target that refuses the second \<open>Start\<close>, the first delivery is never aborted.
\<close>

theorem Start_without_terminal_call:
  "fst leak_Full = Fatal (Error ''recipient rejected'')
   \<and> fst (snd leak_Full) =
       [EvStart (Delivery 0 False), EvAddRcpt (Delivery 0 False) ''b0@example.org'']
   \<and> starts (Delivery 0 False) (fst (snd leak_Full)) = 1
   \<and> terminals (Delivery 0 False) (fst (snd leak_Full)) = 0
   \<and> fst leak_Start = Fatal (Error ''no more deliveries'')
   \<and> fst (snd leak_Start) =
       [EvStart (Delivery 0 False), EvStartErr (Error ''no more deliveries'')]
   \<and> starts (Delivery 0 False) (fst (snd leak_Start)) = 1
   \<and> terminals (Delivery 0 False) (fst (snd leak_Start)) = 0"
  by (simp add: leak_Full_eq leak_Start_eq starts_def terminals_def)

subsection \<open>Atomic bodies\<close>

lemma Full_loop_Body_at_most_once:
  "Full_loop target meta header body sender recipientTemplates is s = (r, tr, s') \<Longrightarrow>
    Body_at_most_once seen tr"
proof (induction "is" arbitrary: s r tr s' seen)
  case Nil
  then show ?case by simp
next
  case (Cons i "is")
  obtain res s1 where st: "Start target meta sender s = (res, s1)"
    by (cases "Start target meta sender s")
  show ?case
  proof (cases res)
    case (Inl err)
    with Cons.prems st show ?thesis by auto
  next
    case (Inr d)
    obtain r1 tr1 s2
      where rl: "range_loop target d (enumerate 0 recipientTemplates) s1 = (r1, tr1, s2)"
      by (cases "range_loop target d (enumerate 0 recipientTemplates) s1")
    from range_loop_events [OF rl] have only: "list_all is_AddRcpt tr1"
      by simp
    show ?thesis
    proof (cases "r1 = Finished")
      case False
      with Cons.prems st Inr rl have "tr = EvStart d # tr1"
        by (cases r1) auto
      then show ?thesis
        using only by (simp add: AddRcpt_only_Body_at_most_once_Nil)
    next
      case True
      obtain e3 s3 where bo: "Body target d header body s2 = (e3, s3)"
        by (cases "Body target d header body s2")
      obtain e4 s4 where co: "Commit target d s3 = (e4, s4)"
        by (cases "Commit target d s3")
      obtain r5 tr5 s5
        where fl: "Full_loop target meta header body sender recipientTemplates is s4 = (r5, tr5, s5)"
        by (cases "Full_loop target meta header body sender recipientTemplates is s4")
      have rest: "Body_at_most_once (insert d seen - {d} - {d}) tr5"
        using fl by (rule Cons.IH)
      from Cons.prems st Inr rl True bo co fl
      have "tr = EvStart d # tr1 @ [EvBody d header body]
          \<or> tr = EvStart d # tr1 @ [EvBody d header body, EvCommit d]
          \<or> tr = EvStart d # tr1 @ [EvBody d header body, EvCommit d] @ tr5"
        by (cases e3; cases e4) auto
      then show ?thesis
        using only rest by (auto simp: AddRcpt_only_Body_at_most_once)
    qed
  qed
qed

lemma Body_calls_Abort: "Body_calls (map EvAbort ds) = []"
  by (induction ds) simp_all

lemma Start_phase_no_Body:
  "Body_calls (fst (snd (BenchDelivery_Start sha1_Sum ord b target sender s))) = []"
  by (auto simp: BenchDelivery_Start_def Body_calls_append Body_calls_Abort
      split: prod.splits outcome.splits
      dest!: Start_loop_no_other_events Abort_loop_events)

lemma AddRcpt_phase_no_Body:
  "Body_calls (fst (snd (BenchDelivery_AddRcpt sha1_Sum ord b target sender recipientTemplates s)))
    = []"
  by (auto simp: BenchDelivery_AddRcpt_def deferred_Abort_def Body_calls_append
      AddRcpt_only_Body_calls split: prod.splits sum.splits dest!: AddRcpt_loop_events)

lemma BodyNonAtomic_phase_no_Body:
  "Body_calls
     (fst (snd (BenchDelivery_BodyNonAtomic sha1_Sum ord b target idempotentBody sender
        recipientTemplates s))) = []"
  by (auto simp: BenchDelivery_BodyNonAtomic_def deferred_Abort_def Body_calls_append
      AddRcpt_only_Body_calls split: prod.splits sum.splits outcome.splits
      dest!: range_loop_events [where p = undefined] BodyNonAtomic_loop_events)

lemma Body_phase_calls:
  assumes "BenchDelivery_Body sha1_Sum ord b target idempotentBody sender recipientTemplates s
    = (r, tr, s')"
  shows "length (Body_calls tr) \<le> N b"
    and "r = Finished \<Longrightarrow> length (Body_calls tr) = N b"
    and "Body_calls tr \<noteq> [] \<Longrightarrow> idempotentBody"
    and "Body_calls tr \<noteq> [] \<Longrightarrow>
      \<exists>d. tr ! 0 = EvStart d \<and> last tr = EvAbort d \<and> starts d tr = 1
        \<and> set (Body_calls tr) = {(d, fst (snd (RandomMsg sha1_Sum ord b)),
              snd (snd (RandomMsg sha1_Sum ord b)))}"
  using assms
  by (auto simp: BenchDelivery_Body_def deferred_Abort_def Body_calls_append
      AddRcpt_only_Body_calls AddRcpt_only_starts starts_def
      split: prod.splits sum.splits outcome.splits if_splits
      dest!: range_loop_events [where p = undefined] Body_loop_events)


lemma Body_loop_trace:
  "Body_loop target delivery header body is s = (r, tr, s') \<Longrightarrow>
    tr = replicate (length tr) (EvBody delivery header body)
    \<and> length tr \<le> length is \<and> (r = Finished \<longrightarrow> length tr = length is)"
  by (induction "is" arbitrary: s r tr s')
    (auto split: prod.splits option.splits)

lemma Body_calls_replicate:
  "Body_calls (replicate k (EvBody d h body)) = replicate k (d, h, body)"
  by (induction k) simp_all

lemma Body_phase_trace:
  assumes p: "BenchDelivery_Body sha1_Sum ord b target idempotentBody sender recipientTemplates s
      = (r, tr, s')"
    and c: "Body_calls tr \<noteq> []"
  shows "\<exists>d tr1 k.
      tr = EvStart d # tr1
             @ replicate k (EvBody d (fst (snd (RandomMsg sha1_Sum ord b)))
                 (snd (snd (RandomMsg sha1_Sum ord b))))
             @ [EvAbort d]
      \<and> list_all is_AddRcpt tr1 \<and> 0 < k \<and> k \<le> N b \<and> (r = Finished \<longrightarrow> k = N b)"
proof -
  let ?meta = "fst (RandomMsg sha1_Sum ord b)"
  let ?header = "fst (snd (RandomMsg sha1_Sum ord b))"
  let ?body = "snd (snd (RandomMsg sha1_Sum ord b))"
  from Body_phase_calls(3) [OF p c] have idem: idempotentBody .
  obtain res s1 where st: "Start target ?meta sender s = (res, s1)"
    by (cases "Start target ?meta sender s")
  show ?thesis
  proof (cases res)
    case (Inl err)
    with p idem st have "tr = [EvStartErr err]"
      by (simp add: BenchDelivery_Body_def case_prod_beta)
    with c show ?thesis by simp
  next
    case (Inr d)
    obtain r1 tr1 s2
      where rl: "range_loop target d (enumerate 0 recipientTemplates) s1 = (r1, tr1, s2)"
      by (cases "range_loop target d (enumerate 0 recipientTemplates) s1")
    from range_loop_events [OF rl] have only: "list_all is_AddRcpt tr1"
      by simp
    obtain r2 tr2 s3 where bl: "Body_loop target d ?header ?body [0..<N b] s2 = (r2, tr2, s3)"
      by (cases "Body_loop target d ?header ?body [0..<N b] s2")
    from Body_loop_trace [OF bl]
    have rep: "tr2 = replicate (length tr2) (EvBody d ?header ?body)"
      and le: "length tr2 \<le> N b" and fin: "r2 = Finished \<longrightarrow> length tr2 = N b"
      by simp_all
    show ?thesis
    proof (cases "r1 = Finished")
      case False
      with p idem st Inr rl have "tr = EvStart d # tr1 @ [EvAbort d]"
        by (cases r1) (simp_all add: BenchDelivery_Body_def deferred_Abort_def case_prod_beta)
      with c only show ?thesis
        by (simp add: Body_calls_append AddRcpt_only_Body_calls)
    next
      case True
      with p idem st Inr rl bl
      have tr: "tr = EvStart d # tr1 @ tr2 @ [EvAbort d]" and r: "r = r2"
        by (simp_all add: BenchDelivery_Body_def deferred_Abort_def case_prod_beta)
      from c tr only have "Body_calls tr2 \<noteq> []"
        by (simp add: Body_calls_append AddRcpt_only_Body_calls)
      then have pos: "0 < length tr2"
        by (cases tr2) simp_all
      have "tr = EvStart d # tr1 @ replicate (length tr2) (EvBody d ?header ?body) @ [EvAbort d]"
        using tr rep by simp
      with only pos le fin r show ?thesis
        by blast
    qed
  qed
qed

lemma repeat_Body_eq:
  "repeat_Body =
    (Finished,
     [EvStart (Delivery 0 False), EvAddRcpt (Delivery 0 False) ''b0@example.org'',
      EvBody (Delivery 0 False) (fst (snd (RandomMsg test_Sum headerPreamble_literal (test_B 2))))
        (snd (snd (RandomMsg test_Sum headerPreamble_literal (test_B 2)))),
      EvBody (Delivery 0 False) (fst (snd (RandomMsg test_Sum headerPreamble_literal (test_B 2))))
        (snd (snd (RandomMsg test_Sum headerPreamble_literal (test_B 2)))),
      EvAbort (Delivery 0 False)],
     \<lparr>next_handle = 1, accepted = [(0, ''b0@example.org'')]\<rparr>)"
  by (simp add: repeat_Body_def BenchDelivery_Body_def deferred_Abort_def RandomMsg_eq test_B_def
      testTarget_def backend0_def enumerate_eq_zip Itoa_0 upt_2 Let_def)

lemma BenchDelivery_Full_eq:
  "BenchDelivery_Full sha1_Sum ord b target sender recipientTemplates s =
    Full_loop target (fst (RandomMsg sha1_Sum ord b)) (fst (snd (RandomMsg sha1_Sum ord b)))
      (snd (snd (RandomMsg sha1_Sum ord b))) sender recipientTemplates [0..<N b] s"
  by (simp add: BenchDelivery_Full_def case_prod_beta)

lemma Body_after_terminal_refused:
  "\<not> Body_at_most_once {} [EvStart d, EvCommit d, EvBody d h body]"
  "\<not> Body_at_most_once {} [EvStart d, EvAbort d, EvBody d h body]"
  "\<not> Body_at_most_once {} [EvStart d, EvBody d h body, EvBody d h body, EvAbort d]"
  "Body_at_most_once {} [EvStart d, EvBody d h body, EvCommit d]"
  by simp_all

text \<open>
  Claim C2, as amended. In the Start, AddRcpt and BodyNonAtomic phases the atomic \<open>Body\<close> is
  never called, and in the Full transaction phase it is called at most once on each
  transaction, between its \<open>Start\<close> and its terminal call. The Body phase is the exception: it
  calls \<open>Body\<close> once in each iteration of its timed loop, so up to \<open>b.N\<close> times (\<open>b.N\<close> times
  when the phase finishes), always on the one delivery it started and always with the same
  header and body, and it does so only when \<open>idempotentBody\<close> is true. All these calls come
  after the \<open>Start\<close> and the \<open>AddRcpt\<close> calls of the phase and before the deferred \<open>Abort\<close>,
  which is the last event of the phase: the trace is the \<open>Start\<close>, the \<open>AddRcpt\<close> calls, the
  \<open>Body\<close> calls, the \<open>Abort\<close>.
\<close>

theorem Body_once_except_in_Body_phase:
  "Body_at_most_once {}
     (fst (snd (BenchDelivery_Full sha1_Sum ord b target sender recipientTemplates s)))
   \<and> Body_calls (fst (snd (BenchDelivery_Start sha1_Sum ord b target sender s))) = []
   \<and> Body_calls
        (fst (snd (BenchDelivery_AddRcpt sha1_Sum ord b target sender recipientTemplates s))) = []
   \<and> Body_calls
        (fst (snd (BenchDelivery_BodyNonAtomic sha1_Sum ord b target idempotentBody sender
           recipientTemplates s))) = []
   \<and> length (Body_calls
        (fst (snd (BenchDelivery_Body sha1_Sum ord b target idempotentBody sender
           recipientTemplates s)))) \<le> N b
   \<and> (fst (BenchDelivery_Body sha1_Sum ord b target idempotentBody sender recipientTemplates s)
        = Finished \<longrightarrow>
      length (Body_calls
        (fst (snd (BenchDelivery_Body sha1_Sum ord b target idempotentBody sender
           recipientTemplates s)))) = N b)
   \<and> (Body_calls
        (fst (snd (BenchDelivery_Body sha1_Sum ord b target idempotentBody sender
           recipientTemplates s))) \<noteq> [] \<longrightarrow>
      idempotentBody
      \<and> (\<exists>d. starts d
                (fst (snd (BenchDelivery_Body sha1_Sum ord b target idempotentBody sender
                   recipientTemplates s))) = 1
            \<and> set (Body_calls
                (fst (snd (BenchDelivery_Body sha1_Sum ord b target idempotentBody sender
                   recipientTemplates s))))
              = {(d, fst (snd (RandomMsg sha1_Sum ord b)), snd (snd (RandomMsg sha1_Sum ord b)))})
      \<and> (\<exists>d tr1 k.
            fst (snd (BenchDelivery_Body sha1_Sum ord b target idempotentBody sender
              recipientTemplates s))
              = EvStart d # tr1
                  @ replicate k (EvBody d (fst (snd (RandomMsg sha1_Sum ord b)))
                      (snd (snd (RandomMsg sha1_Sum ord b))))
                  @ [EvAbort d]
            \<and> list_all is_AddRcpt tr1 \<and> 0 < k \<and> k \<le> N b
            \<and> (fst (BenchDelivery_Body sha1_Sum ord b target idempotentBody sender
                  recipientTemplates s) = Finished \<longrightarrow> k = N b)))"
proof -
  obtain r tr s'
    where p: "BenchDelivery_Body sha1_Sum ord b target idempotentBody sender recipientTemplates s
      = (r, tr, s')"
    by (cases "BenchDelivery_Body sha1_Sum ord b target idempotentBody sender recipientTemplates s")
  obtain r5 tr5 s5
    where f: "Full_loop target (fst (RandomMsg sha1_Sum ord b)) (fst (snd (RandomMsg sha1_Sum ord b)))
        (snd (snd (RandomMsg sha1_Sum ord b))) sender recipientTemplates [0..<N b] s = (r5, tr5, s5)"
    by (cases "Full_loop target (fst (RandomMsg sha1_Sum ord b))
        (fst (snd (RandomMsg sha1_Sum ord b))) (snd (snd (RandomMsg sha1_Sum ord b))) sender
        recipientTemplates [0..<N b] s")
  have full: "Body_at_most_once {}
      (fst (snd (BenchDelivery_Full sha1_Sum ord b target sender recipientTemplates s)))"
    using Full_loop_Body_at_most_once [OF f, of "{}"] f
    by (simp add: BenchDelivery_Full_eq)
  from Body_phase_calls [OF p] have
    "length (Body_calls tr) \<le> N b"
    "r = Finished \<longrightarrow> length (Body_calls tr) = N b"
    "Body_calls tr \<noteq> [] \<longrightarrow> idempotentBody
      \<and> (\<exists>d. starts d tr = 1
            \<and> set (Body_calls tr)
              = {(d, fst (snd (RandomMsg sha1_Sum ord b)), snd (snd (RandomMsg sha1_Sum ord b)))})"
    by blast+
  moreover have "Body_calls tr \<noteq> [] \<longrightarrow>
      (\<exists>d tr1 k.
          tr = EvStart d # tr1
                 @ replicate k (EvBody d (fst (snd (RandomMsg sha1_Sum ord b)))
                     (snd (snd (RandomMsg sha1_Sum ord b))))
                 @ [EvAbort d]
          \<and> list_all is_AddRcpt tr1 \<and> 0 < k \<and> k \<le> N b \<and> (r = Finished \<longrightarrow> k = N b))"
    using Body_phase_trace [OF p] by blast
  ultimately show ?thesis
    unfolding p using full
    by (simp add: Start_phase_no_Body AddRcpt_phase_no_Body BodyNonAtomic_phase_no_Body)
qed

theorem Body_once_except_in_Body_phase_witness:
  "fst repeat_Body = Finished
   \<and> Body_calls (fst (snd repeat_Body)) \<noteq> []
   \<and> length (Body_calls (fst (snd repeat_Body))) = N (test_B 2)
   \<and> (\<exists>d. starts d (fst (snd repeat_Body)) = 1
         \<and> set (Body_calls (fst (snd repeat_Body)))
           = {(d, fst (snd (RandomMsg test_Sum headerPreamble_literal (test_B 2))),
               snd (snd (RandomMsg test_Sum headerPreamble_literal (test_B 2))))})
   \<and> (\<exists>d tr1 k.
         fst (snd repeat_Body)
           = EvStart d # tr1
               @ replicate k (EvBody d (fst (snd (RandomMsg test_Sum headerPreamble_literal (test_B 2))))
                   (snd (snd (RandomMsg test_Sum headerPreamble_literal (test_B 2)))))
               @ [EvAbort d]
         \<and> list_all is_AddRcpt tr1 \<and> 0 < k \<and> k \<le> N (test_B 2) \<and> k = N (test_B 2))
   \<and> Body_at_most_once {}
        (fst (snd (BenchDelivery_Full test_Sum headerPreamble_literal (test_B 2)
           (testTarget 5 [] False) ''a@example.org'' [''bX@example.org''] backend0)))"
proof -
  have h1: "fst repeat_Body = Finished" and h2: "Body_calls (fst (snd repeat_Body)) \<noteq> []"
    by (simp_all add: repeat_Body_eq)
  show ?thesis
    using h1 h2
      Body_once_except_in_Body_phase [of test_Sum headerPreamble_literal "test_B 2"
        "testTarget 5 [] False" "''a@example.org''" "[''bX@example.org'']" backend0 True]
    unfolding repeat_Body_def [symmetric] by blast
qed

text \<open>
  The claim as the spec has it fails in the Body phase: with \<open>b.N = 2\<close> the one delivery of
  the phase gets two atomic \<open>Body\<close> calls before its \<open>Abort\<close>.
\<close>

theorem Body_twice_on_one_delivery:
  "starts (Delivery 0 False) (fst (snd repeat_Body)) = 1
   \<and> map fst (Body_calls (fst (snd repeat_Body))) = [Delivery 0 False, Delivery 0 False]
   \<and> last (fst (snd repeat_Body)) = EvAbort (Delivery 0 False)
   \<and> \<not> Body_at_most_once {} (fst (snd repeat_Body))"
  by (simp add: repeat_Body_eq starts_def)


subsection \<open>The collector of the BodyNonAtomic phase\<close>

lemma repeat_BodyNonAtomic_collectors:
  "collectors (fst (snd repeat_BodyNonAtomic)) =
    [Map.empty, SetStatus_calls [(''b0@example.org'', None)] Map.empty]"
  by (simp add: repeat_BodyNonAtomic_def BenchDelivery_BodyNonAtomic_def deferred_Abort_def
      RandomMsg_eq test_B_def testTarget_def backend0_def enumerate_eq_zip Itoa_0 upt_2 Let_def
      collectors_append)

text \<open>
  Claim C3, as amended. A run of the BodyNonAtomic phase makes one status collector, before
  its timed loop. The first \<open>BodyNonAtomic\<close> call of the run receives it empty; every later
  call receives the same collector as the calls before have left it, that is with the entries
  that the \<open>SetStatus\<close> calls of all earlier \<open>BodyNonAtomic\<close> calls of the run have written.
  There are at most \<open>b.N\<close> such calls in a run.
\<close>

theorem BodyNonAtomic_collector_shared:
  "collector_chain Map.empty
     (fst (snd (BenchDelivery_BodyNonAtomic sha1_Sum ord b target idempotentBody sender
        recipientTemplates s)))
   \<and> length (collectors
        (fst (snd (BenchDelivery_BodyNonAtomic sha1_Sum ord b target idempotentBody sender
           recipientTemplates s)))) \<le> N b"
  by (auto simp: BenchDelivery_BodyNonAtomic_def deferred_Abort_def collectors_append
      AddRcpt_only_collectors AddRcpt_only_collector_chain AddRcpt_only_collector_chain_Nil
      collector_chain_Abort
      split: prod.splits sum.splits outcome.splits
      dest!: range_loop_events [where p = undefined] BodyNonAtomic_loop_events)

theorem BodyNonAtomic_collector_shared_witness:
  "collector_chain Map.empty (fst (snd repeat_BodyNonAtomic))
   \<and> length (collectors (fst (snd repeat_BodyNonAtomic))) = 2
   \<and> N (test_B 2) = 2"
  using BodyNonAtomic_collector_shared [of test_Sum headerPreamble_literal "test_B 2"
      "testTarget 5 [] True" True "''a@example.org''" "[''bX@example.org'']" backend0]
  unfolding repeat_BodyNonAtomic_def [symmetric]
  by (simp add: repeat_BodyNonAtomic_collectors test_B_def)

text \<open>
  The claim as the spec has it fails: with \<open>b.N = 2\<close> and a target that reports the one
  recipient \<open>b0@example.org\<close> in each call, the second \<open>BodyNonAtomic\<close> call receives a
  collector that already holds the entry the first call wrote.
\<close>

theorem BodyNonAtomic_collector_carries_over:
  "length (collectors (fst (snd repeat_BodyNonAtomic))) = 2
   \<and> (collectors (fst (snd repeat_BodyNonAtomic)) ! 0) ''b0@example.org'' = None
   \<and> (collectors (fst (snd repeat_BodyNonAtomic)) ! 1) ''b0@example.org'' = Some None
   \<and> collectors (fst (snd repeat_BodyNonAtomic)) ! 1 \<noteq> Map.empty"
proof -
  have "(SetStatus_calls [(''b0@example.org'', None)] Map.empty) ''b0@example.org'' = Some None"
    by (simp add: SetStatus_calls_def SetStatus_def)
  moreover from this
  have "SetStatus_calls [(''b0@example.org'', None)] Map.empty \<noteq> Map.empty"
    by (metis option.distinct(1))
  ultimately show ?thesis
    by (simp add: repeat_BodyNonAtomic_collectors)
qed

subsection \<open>Skipped phases\<close>

lemma skipped_BodyNonAtomic_eq:
  "skipped_BodyNonAtomic =
    (Skipped ''Delivery does not implement PartialDelivery'',
     [EvStart (Delivery 0 False), EvAbort (Delivery 0 False)],
     \<lparr>next_handle = 1, accepted = []\<rparr>)"
  by (simp add: skipped_BodyNonAtomic_def BenchDelivery_BodyNonAtomic_def deferred_Abort_def
      RandomMsg_eq test_B_def testTarget_def backend0_def)









subsection \<open>The template index\<close>

lemma panicking_AddRcpt_eq:
  "panicking_AddRcpt =
    (Panicked DivideByZero, [EvStart (Delivery 0 False), EvAbort (Delivery 0 False)],
     \<lparr>next_handle = 1, accepted = []\<rparr>)"
  by (simp add: panicking_AddRcpt_def BenchDelivery_AddRcpt_def deferred_Abort_def RandomMsg_eq
      test_B_def testTarget_def backend0_def upt_2 AddRcpt_rcpt_empty)

text \<open>
  Claim C9. The AddRcpt phase needs a non-empty \<open>recipientTemplates\<close>. With the empty list
  the index \<open>i % len(recipientTemplates)\<close> is a division by zero for every \<open>i\<close>, so the phase
  panics in its first iteration, that is whenever \<open>Start\<close> returned a delivery and \<open>b.N\<close> is
  positive. With a non-empty list the index is below the length of the list for every \<open>i\<close>:
  neither the modulo nor the indexing fails, and the phase does not panic.
\<close>

theorem AddRcpt_needs_templates:
  "go_mod i (length ([] :: string list)) = Inl DivideByZero
   \<and> AddRcpt_rcpt [] i = Inl DivideByZero
   \<and> (Start target (fst (RandomMsg sha1_Sum ord b)) sender s = (Inr delivery, s1) \<and> 0 < N b
        \<longrightarrow>
      BenchDelivery_AddRcpt sha1_Sum ord b target sender [] s
        = (Panicked DivideByZero, [EvStart delivery, EvAbort delivery],
           snd (Abort target delivery s1)))
   \<and> (recipientTemplates \<noteq> [] \<longrightarrow>
      go_mod i (length recipientTemplates) = Inr (i mod length recipientTemplates)
      \<and> i mod length recipientTemplates < length recipientTemplates
      \<and> index recipientTemplates (i mod length recipientTemplates)
          = Inr (recipientTemplates ! (i mod length recipientTemplates))
      \<and> AddRcpt_rcpt recipientTemplates i
          = Inr (Replace (recipientTemplates ! (i mod length recipientTemplates)) CHR ''X''
                   (Itoa i))
      \<and> fst (BenchDelivery_AddRcpt sha1_Sum ord b target sender recipientTemplates s)
          \<noteq> Panicked p)"
proof (intro conjI impI)
  show "go_mod i (length ([] :: string list)) = Inl DivideByZero"
    by (simp add: go_mod_def)
  show "AddRcpt_rcpt [] i = Inl DivideByZero"
    by (rule AddRcpt_rcpt_empty)
next
  assume a: "Start target (fst (RandomMsg sha1_Sum ord b)) sender s = (Inr delivery, s1) \<and> 0 < N b"
  then have "[0..<N b] = 0 # [1..<N b]"
    by (simp add: upt_conv_Cons)
  with a show "BenchDelivery_AddRcpt sha1_Sum ord b target sender [] s
      = (Panicked DivideByZero, [EvStart delivery, EvAbort delivery],
         snd (Abort target delivery s1))"
    by (simp add: BenchDelivery_AddRcpt_def deferred_Abort_def AddRcpt_rcpt_empty
        case_prod_beta)
next
  assume ne: "recipientTemplates \<noteq> []"
  then show "go_mod i (length recipientTemplates) = Inr (i mod length recipientTemplates)"
    by (simp add: go_mod_def)
  from ne show lt: "i mod length recipientTemplates < length recipientTemplates"
    by simp
  then show "index recipientTemplates (i mod length recipientTemplates)
      = Inr (recipientTemplates ! (i mod length recipientTemplates))"
    by (simp add: index_def)
  from ne show "AddRcpt_rcpt recipientTemplates i
      = Inr (Replace (recipientTemplates ! (i mod length recipientTemplates)) CHR ''X'' (Itoa i))"
    by (rule AddRcpt_rcpt_nonempty)
  show "fst (BenchDelivery_AddRcpt sha1_Sum ord b target sender recipientTemplates s)
      \<noteq> Panicked p"
    using ne
    by (auto simp: BenchDelivery_AddRcpt_def deferred_Abort_def
        split: prod.splits sum.splits dest: AddRcpt_loop_not_Panicked)
qed

theorem AddRcpt_needs_templates_witness:
  "Start (testTarget 5 [] False) (fst (RandomMsg test_Sum headerPreamble_literal (test_B 2)))
       ''a@example.org'' backend0
     = (Inr (Delivery 0 False), \<lparr>next_handle = 1, accepted = []\<rparr>)
   \<and> 0 < N (test_B 2)
   \<and> panicking_AddRcpt
       = (Panicked DivideByZero, [EvStart (Delivery 0 False), EvAbort (Delivery 0 False)],
          snd (Abort (testTarget 5 [] False) (Delivery 0 False)
                 \<lparr>next_handle = 1, accepted = []\<rparr>))
   \<and> [''bX@example.org'', ''cX@example.org''] \<noteq> []
   \<and> 7 mod length [''bX@example.org'', ''cX@example.org'']
       < length [''bX@example.org'', ''cX@example.org'']
   \<and> AddRcpt_rcpt [''bX@example.org'', ''cX@example.org''] 7 = Inr ''c7@example.org''"
proof -
  have st: "Start (testTarget 5 [] False)
        (fst (RandomMsg test_Sum headerPreamble_literal (test_B 2))) ''a@example.org'' backend0
       = (Inr (Delivery 0 False), \<lparr>next_handle = 1, accepted = []\<rparr>)"
    by (simp add: testTarget_def backend0_def)
  have n: "0 < N (test_B 2)"
    by (simp add: test_B_def)
  have ne: "[''bX@example.org'', ''cX@example.org''] \<noteq> []"
    by simp
  have r7: "Replace ([''bX@example.org'', ''cX@example.org'']
      ! (7 mod length [''bX@example.org'', ''cX@example.org''])) CHR ''X'' (Itoa 7)
      = ''c7@example.org''"
    by code_simp
  note t1 = AddRcpt_needs_templates [of 7 "testTarget 5 [] False" test_Sum
      headerPreamble_literal "test_B 2" "''a@example.org''" backend0 "Delivery 0 False"
      "\<lparr>next_handle = 1, accepted = []\<rparr>" "[''bX@example.org'', ''cX@example.org'']"]
  from t1 st n have a: "panicking_AddRcpt
       = (Panicked DivideByZero, [EvStart (Delivery 0 False), EvAbort (Delivery 0 False)],
          snd (Abort (testTarget 5 [] False) (Delivery 0 False)
                 \<lparr>next_handle = 1, accepted = []\<rparr>))"
    unfolding panicking_AddRcpt_def by blast
  from t1 ne have b: "7 mod length [''bX@example.org'', ''cX@example.org'']
       < length [''bX@example.org'', ''cX@example.org'']"
    and c: "AddRcpt_rcpt [''bX@example.org'', ''cX@example.org''] 7
      = Inr (Replace ([''bX@example.org'', ''cX@example.org'']
          ! (7 mod length [''bX@example.org'', ''cX@example.org''])) CHR ''X'' (Itoa 7))"
    by blast+
  from st n a ne b c r7 show ?thesis
    by (simp only: simp_thms)
qed

end
